theory Spec2Isabelle
  imports Main
begin

section \<open>The contact form of main.js\<close>

text \<open>
  The script binds one submit handler to the contact form. The handler collects the
  form's entries, validates them, posts a JSON payload with a timeout and renders a
  banner. The embedding follows the functions of \<^verbatim>\<open>initContactForm\<close> one by one.

  A \<^typ>\<open>string\<close> lists the code units of a JavaScript string; the model covers the
  strings whose code units are below 256.
\<close>

subsection \<open>Configuration\<close>

definition API_BASE_URL :: string where
  "API_BASE_URL = ''http://localhost:8080/api''"

definition CONTACT_ENDPOINT :: string where
  "CONTACT_ENDPOINT = ''/contact''"

definition CORS_MODE :: string where
  "CORS_MODE = ''cors''"

definition REQUEST_TIMEOUT :: nat where
  "REQUEST_TIMEOUT = 10000"

subsection \<open>Strings: whitespace, trim, includes\<close>

text \<open>
  The white space and line terminators of ECMAScript below code unit 256: TAB, LF, VT,
  FF, CR, SP and NBSP. Both \<^verbatim>\<open>String.prototype.trim\<close> and the class
  \<^verbatim>\<open>\s\<close> of a regular expression use this set.
\<close>

definition is_js_space :: "char \<Rightarrow> bool" where
  "is_js_space c = (c \<in> set [CHR 0x09, CHR 0x0A, CHR 0x0B, CHR 0x0C, CHR 0x0D, CHR 0x20, CHR 0xA0])"

definition trim :: "string \<Rightarrow> string" where
  "trim s = rev (dropWhile is_js_space (rev (dropWhile is_js_space s)))"

definition starts_with :: "string \<Rightarrow> string \<Rightarrow> bool" where
  "starts_with s t = (take (length t) s = t)"

fun str_includes :: "string \<Rightarrow> string \<Rightarrow> bool" where
  "str_includes [] t = (t = [])"
| "str_includes (c # s) t = (starts_with (c # s) t \<or> str_includes s t)"

subsection \<open>The regular expression of the email check\<close>

text \<open>
  \<^verbatim>\<open>/^[^\s@]+@[^\s@]+\.[^\s@]+$/\<close> is a sequence of atoms, each a literal character or
  a negated class, taken once or one-or-more times, anchored at both ends.
  \<open>match_items\<close> decides whether the whole string matches, trying every length of a
  repeated atom as a backtracking matcher does.
\<close>

datatype class_item = CSpace | CChar char

fun in_item :: "class_item \<Rightarrow> char \<Rightarrow> bool" where
  "in_item CSpace c = is_js_space c"
| "in_item (CChar d) c = (c = d)"

datatype atom = Lit char | NegClass "class_item list"

fun atom_ok :: "atom \<Rightarrow> char \<Rightarrow> bool" where
  "atom_ok (Lit d) c = (c = d)"
| "atom_ok (NegClass its) c = (\<not> list_ex (\<lambda>it. in_item it c) its)"

datatype item = Once atom | Plus atom

fun match_items :: "item list \<Rightarrow> string \<Rightarrow> bool" where
  "match_items [] s = (s = [])"
| "match_items (Once a # r) [] = False"
| "match_items (Once a # r) (c # s) = (atom_ok a c \<and> match_items r s)"
| "match_items (Plus a # r) [] = False"
| "match_items (Plus a # r) (c # s) =
     (atom_ok a c \<and> (match_items (Plus a # r) s \<or> match_items r s))"

definition emailRegex :: "item list" where
  "emailRegex =
     [Plus (NegClass [CSpace, CChar CHR ''@'']), Once (Lit CHR ''@''),
      Plus (NegClass [CSpace, CChar CHR ''@'']), Once (Lit CHR ''.''),
      Plus (NegClass [CSpace, CChar CHR ''@''])]"

definition emailRegex_test :: "string \<Rightarrow> bool" where
  "emailRegex_test s = match_items emailRegex s"

subsection \<open>Collecting and validating the form data\<close>

text \<open>
  An entry of \<^verbatim>\<open>FormData\<close> holds a string or a file. A file has no \<^verbatim>\<open>trim\<close>
  method, so \<^verbatim>\<open>value.trim()\<close> throws a TypeError there.
\<close>

datatype js_error = JsError (err_name: string) (err_message: string)

datatype entry_value = Text string | File

type_synonym form_data = "string \<rightharpoonup> string"

fun collect_loop :: "(string \<times> entry_value) list \<Rightarrow> form_data \<Rightarrow> js_error + form_data" where
  "collect_loop [] data = Inr data"
| "collect_loop ((key, Text v) # es) data = collect_loop es (data(key \<mapsto> trim v))"
| "collect_loop ((key, File) # es) data =
     Inl (JsError ''TypeError'' ''value.trim is not a function'')"

definition collectFormData :: "(string \<times> entry_value) list \<Rightarrow> js_error + form_data" where
  "collectFormData form = collect_loop form Map.empty"

definition required :: "string list" where
  "required = [''firstName'', ''lastName'', ''email'', ''message'', ''privacy'']"

text \<open>
  \<^verbatim>\<open>!data[field] || data[field] === ''\<close>: a missing field is undefined and an empty
  string is falsy. \<^verbatim>\<open>RegExp.prototype.test\<close> converts its argument to a string, and
  undefined becomes the string "undefined".
\<close>

definition to_str :: "string option \<Rightarrow> string" where
  "to_str v = (case v of None \<Rightarrow> ''undefined'' | Some s \<Rightarrow> s)"

definition field_blank :: "form_data \<Rightarrow> string \<Rightarrow> bool" where
  "field_blank data field = (case data field of None \<Rightarrow> True | Some v \<Rightarrow> v = [])"

definition validateFormData :: "form_data \<Rightarrow> bool" where
  "validateFormData data =
     (if list_ex (field_blank data) required then False
      else if \<not> emailRegex_test (to_str (data ''email'')) then False
      else if data ''privacy'' \<noteq> Some ''on'' then False
      else True)"

subsection \<open>The request\<close>

record request =
  url :: string
  http_method :: string
  headers :: "(string \<times> string) list"
  body :: "(string \<times> string) list"
  mode :: string

text \<open>\<^verbatim>\<open>data.company || ''\<close>: undefined and the empty string both give the empty string.\<close>

definition or_empty :: "string option \<Rightarrow> string" where
  "or_empty v = (case v of None \<Rightarrow> [] | Some s \<Rightarrow> if s = [] then [] else s)"

text \<open>
  The payload object, in the order of its properties. A property read from a missing
  field is undefined (\<open>None\<close>). \<open>toISOString\<close> is the platform's rendering of the
  clock reading \<open>now\<close>.
\<close>

definition make_payload :: "(nat \<Rightarrow> string) \<Rightarrow> nat \<Rightarrow> form_data \<Rightarrow> (string \<times> string option) list" where
  "make_payload toISOString now data =
     [(''firstName'', data ''firstName''),
      (''lastName'', data ''lastName''),
      (''email'', data ''email''),
      (''company'', Some (or_empty (data ''company''))),
      (''phone'', Some (or_empty (data ''phone''))),
      (''service'', Some (or_empty (data ''service''))),
      (''message'', data ''message''),
      (''timestamp'', Some (toISOString now)),
      (''source'', Some ''website_contact_form'')]"

text \<open>
  \<^verbatim>\<open>JSON.stringify\<close> leaves out the properties whose value is undefined. The body of
  the request is kept as the list of members of the JSON object it writes; the quoting
  of the text is not modelled.
\<close>

fun JSON_stringify :: "(string \<times> string option) list \<Rightarrow> (string \<times> string) list" where
  "JSON_stringify [] = []"
| "JSON_stringify ((k, None) # kvs) = JSON_stringify kvs"
| "JSON_stringify ((k, Some v) # kvs) = (k, v) # JSON_stringify kvs"

definition make_request :: "(nat \<Rightarrow> string) \<Rightarrow> nat \<Rightarrow> form_data \<Rightarrow> request" where
  "make_request toISOString now data =
     \<lparr>url = API_BASE_URL @ CONTACT_ENDPOINT,
      http_method = ''POST'',
      headers = [(''Content-Type'', ''application/json''), (''Accept'', ''application/json'')],
      body = JSON_stringify (make_payload toISOString now data),
      mode = CORS_MODE\<rparr>"

subsection \<open>The response and the race against the timeout\<close>

text \<open>
  A parsed JSON value. Only the zero test of a number is observed, so numbers are kept
  as integers.
\<close>

datatype json = JNull | JBool bool | JNum int | JStr string
  | JArr "json list" | JObj "(string \<times> json) list"

text \<open>
  What the network does is an input of the model. The fetch promise resolves with a
  response or rejects with an error after some milliseconds, or stays pending;
  \<^verbatim>\<open>response.json()\<close> does the same once the body is read.
\<close>

datatype body_outcome = JsonResolves nat json | JsonRejects nat js_error | JsonPending

datatype response = Response (status: nat) (body_of: body_outcome)

datatype fetch_outcome = FetchResolves nat response | FetchRejects nat js_error | FetchPending

definition response_ok :: "response \<Rightarrow> bool" where
  "response_ok r = (200 \<le> status r \<and> status r \<le> 299)"

definition timeout_error :: js_error where
  "timeout_error = JsError ''Error'' ''Request timeout''"

text \<open>
  \<^verbatim>\<open>Promise.race([fetchPromise, timeoutPromise])\<close>: the fetch wins when it settles
  before the timer of \<open>REQUEST_TIMEOUT\<close> milliseconds fires; otherwise the race rejects
  with the timer's error. The result is paired with the milliseconds that have passed.
  Nothing is done to the request when the timer wins.
\<close>

fun race :: "fetch_outcome \<Rightarrow> nat \<times> (js_error + response)" where
  "race (FetchResolves d r) =
     (if d < REQUEST_TIMEOUT then (d, Inr r) else (REQUEST_TIMEOUT, Inl timeout_error))"
| "race (FetchRejects d e) =
     (if d < REQUEST_TIMEOUT then (d, Inl e) else (REQUEST_TIMEOUT, Inl timeout_error))"
| "race FetchPending = (REQUEST_TIMEOUT, Inl timeout_error)"

definition digit_char :: "nat \<Rightarrow> char" where
  "digit_char n = char_of (48 + n)"

fun string_of_nat :: "nat \<Rightarrow> string" where
  "string_of_nat n =
     (if n < 10 then [digit_char n] else string_of_nat (n div 10) @ [digit_char (n mod 10)])"

declare string_of_nat.simps [simp del]

text \<open>
  \<^verbatim>\<open>result.message\<close>: reading a property of null throws; an object gives its member
  (the last one of that name); every other value gives undefined.
\<close>

fun get_message :: "json \<Rightarrow> js_error + json option" where
  "get_message JNull =
     Inl (JsError ''TypeError'' ''Cannot read properties of null (reading 'message')'')"
| "get_message (JObj kvs) = Inr (map_of (rev kvs) ''message'')"
| "get_message j = Inr None"

fun truthy :: "json \<Rightarrow> bool" where
  "truthy JNull = False"
| "truthy (JBool b) = b"
| "truthy (JNum n) = (n \<noteq> 0)"
| "truthy (JStr s) = (s \<noteq> [])"
| "truthy (JArr js) = True"
| "truthy (JObj kvs) = True"

datatype send_result = Success (message_of: json) (data_of: json) | Failure (failure_message: string)

text \<open>
  The \<^verbatim>\<open>try\<close> block of \<^verbatim>\<open>sendContactForm\<close> after the request is issued: \<open>Inl\<close>
  is a thrown error, \<open>None\<close> a body that never arrives.
\<close>

definition try_send :: "fetch_outcome \<Rightarrow> (nat \<times> (js_error + send_result)) option" where
  "try_send outcome =
     (case race outcome of
        (d, Inl e) \<Rightarrow> Some (d, Inl e)
      | (d, Inr r) \<Rightarrow>
          if \<not> response_ok r
          then Some (d, Inl (JsError ''Error'' (''HTTP error! status: '' @ string_of_nat (status r))))
          else (case body_of r of
                  JsonPending \<Rightarrow> None
                | JsonRejects bd e \<Rightarrow> Some (d + bd, Inl e)
                | JsonResolves bd result \<Rightarrow>
                    (case get_message result of
                       Inl e \<Rightarrow> Some (d + bd, Inl e)
                     | Inr m \<Rightarrow>
                         Some (d + bd, Inr (Success
                           (case m of
                              None \<Rightarrow> JStr ''Message sent successfully''
                            | Some v \<Rightarrow> if truthy v then v else JStr ''Message sent successfully'')
                           result)))))"

definition network_message :: string where
  "network_message =
     ''Unable to connect to the server. Please check your internet connection or try again later.''"

definition timeout_message :: string where
  "timeout_message = ''Request timed out. Please try again.''"

definition unexpected_message :: string where
  "unexpected_message = ''An unexpected error occurred. Please try again or contact us directly.''"

text \<open>The \<^verbatim>\<open>catch\<close> block of \<^verbatim>\<open>sendContactForm\<close>.\<close>

definition catch_send :: "js_error \<Rightarrow> send_result" where
  "catch_send error =
     (if err_name error = ''TypeError'' \<and> str_includes (err_message error) ''fetch''
      then Failure network_message
      else if err_message error = ''Request timeout''
      then Failure timeout_message
      else Failure unexpected_message)"

text \<open>
  \<^verbatim>\<open>sendContactForm\<close> in two parts: \<open>make_request\<close> is what it does before its first
  \<^verbatim>\<open>await\<close>, \<open>sendContactForm_settle\<close> the value its promise resolves with and
  after how many milliseconds. The promise never rejects.
\<close>

definition sendContactForm_settle :: "fetch_outcome \<Rightarrow> (nat \<times> send_result) option" where
  "sendContactForm_settle outcome =
     (case try_send outcome of
        None \<Rightarrow> None
      | Some (d, Inl e) \<Rightarrow> Some (d, catch_send e)
      | Some (d, Inr r) \<Rightarrow> Some (d, r))"

definition sendContactForm ::
  "(nat \<Rightarrow> string) \<Rightarrow> nat \<Rightarrow> form_data \<Rightarrow> fetch_outcome \<Rightarrow> request \<times> (nat \<times> send_result) option" where
  "sendContactForm toISOString now data outcome =
     (make_request toISOString now data, sendContactForm_settle outcome)"

subsection \<open>The page\<close>

text \<open>
  The elements the handler touches: the submit button and its label, the banner
  \<^verbatim>\<open>formMessage\<close>, the form's current entries and the entries it resets to. The
  page also keeps the requests issued, the due times of the pending
  \<^verbatim>\<open>hideMessage\<close> timers and the clock in milliseconds. The elements are taken to
  exist, as the script does.
\<close>

record page =
  btn_disabled :: bool
  btn_classes :: "string list"
  submit_text :: string
  msg_classes :: "string list"
  msg_text :: string
  form_values :: "(string \<times> entry_value) list"
  form_defaults :: "(string \<times> entry_value) list"
  requests :: "request list"
  timers :: "nat list"
  clock :: nat

definition class_add :: "string \<Rightarrow> string list \<Rightarrow> string list" where
  "class_add c cs = (if c \<in> set cs then cs else cs @ [c])"

definition class_remove :: "string \<Rightarrow> string list \<Rightarrow> string list" where
  "class_remove c cs = filter (\<lambda>x. x \<noteq> c) cs"

text \<open>Assigning \<^verbatim>\<open>className\<close> replaces the class list by the tokens of the string.\<close>

fun tokens_from :: "string \<Rightarrow> string \<Rightarrow> string list" where
  "tokens_from cur [] = (if cur = [] then [] else [cur])"
| "tokens_from cur (c # s) =
     (if c = CHR '' ''
      then (if cur = [] then tokens_from [] s else cur # tokens_from [] s)
      else tokens_from (cur @ [c]) s)"

definition class_tokens :: "string \<Rightarrow> string list" where
  "class_tokens s = tokens_from [] s"

definition setSubmitButtonState :: "bool \<Rightarrow> page \<Rightarrow> page" where
  "setSubmitButtonState loading p =
     (if loading
      then p\<lparr>btn_disabled := True,
             btn_classes := class_add ''cursor-not-allowed'' (class_add ''opacity-50'' (btn_classes p)),
             submit_text := ''Sending...''\<rparr>
      else p\<lparr>btn_disabled := False,
             btn_classes := class_remove ''cursor-not-allowed'' (class_remove ''opacity-50'' (btn_classes p)),
             submit_text := ''Send Message''\<rparr>)"

datatype msg_type = MSuccess | MError

fun messageClasses :: "msg_type \<Rightarrow> string" where
  "messageClasses MSuccess = ''bg-green-100 border border-green-400 text-green-700 px-4 py-3 rounded''"
| "messageClasses MError = ''bg-red-100 border border-red-400 text-red-700 px-4 py-3 rounded''"

definition AUTO_HIDE_DELAY :: nat where
  "AUTO_HIDE_DELAY = 5000"

definition showMessage :: "string \<Rightarrow> msg_type \<Rightarrow> page \<Rightarrow> page" where
  "showMessage message type p =
     p\<lparr>msg_classes := class_remove ''hidden'' (class_tokens (messageClasses type)),
       msg_text := message,
       timers := (if type = MSuccess then timers p @ [clock p + AUTO_HIDE_DELAY] else timers p)\<rparr>"

definition hideMessage :: "page \<Rightarrow> page" where
  "hideMessage p = p\<lparr>msg_classes := class_add ''hidden'' (msg_classes p)\<rparr>"

definition form_reset :: "page \<Rightarrow> page" where
  "form_reset p = p\<lparr>form_values := form_defaults p\<rparr>"

definition banner_visible :: "page \<Rightarrow> bool" where
  "banner_visible p = (''hidden'' \<notin> set (msg_classes p))"

text \<open>
  Letting \<open>dt\<close> milliseconds pass: every timer that is due by then runs its callback,
  which is \<^verbatim>\<open>hideMessage\<close>, and leaves the list.
\<close>

definition advance :: "nat \<Rightarrow> page \<Rightarrow> page" where
  "advance dt p =
     (let t = clock p + dt
      in fold (\<lambda>_. hideMessage) (filter (\<lambda>due. due \<le> t) (timers p))
           (p\<lparr>clock := t, timers := filter (\<lambda>due. \<not> due \<le> t) (timers p)\<rparr>))"

subsection \<open>The submit handler\<close>

definition validation_message :: string where
  "validation_message = ''Please fill in all required fields correctly.''"

definition thanks_message :: string where
  "thanks_message = ''Thank you for your message! We'll get back to you soon.''"

definition fallback_message :: string where
  "fallback_message = ''There was an error sending your message. Please try again.''"

definition handler_catch_message :: string where
  "handler_catch_message =
     ''There was an error sending your message. Please try again or contact us directly.''"

text \<open>
  The handler runs up to the \<^verbatim>\<open>await\<close> of \<^verbatim>\<open>sendContactForm\<close> in one piece. It
  has either concluded by then (its \<^verbatim>\<open>finally\<close> block has run) or is in flight,
  with the request issued.
\<close>

datatype phase = Concluded page | InFlight page

definition submit_begin :: "(nat \<Rightarrow> string) \<Rightarrow> page \<Rightarrow> phase" where
  "submit_begin toISOString p =
     (let p1 = hideMessage (setSubmitButtonState True p)
      in case collectFormData (form_values p1) of
           Inl error \<Rightarrow>
             Concluded (setSubmitButtonState False (showMessage handler_catch_message MError p1))
         | Inr formData \<Rightarrow>
             if \<not> validateFormData formData
             then Concluded (setSubmitButtonState False (showMessage validation_message MError p1))
             else InFlight (p1\<lparr>requests := requests p1 @ [make_request toISOString (clock p1) formData]\<rparr>))"

text \<open>
  The rest of the handler, once the promise of \<^verbatim>\<open>sendContactForm\<close> has resolved;
  \<open>None\<close> when it never does. \<^verbatim>\<open>response.message || '...'\<close> falls back on an empty
  message.
\<close>

definition submit_resume :: "fetch_outcome \<Rightarrow> page \<Rightarrow> page option" where
  "submit_resume outcome p =
     (case sendContactForm_settle outcome of
        None \<Rightarrow> None
      | Some (d, response) \<Rightarrow>
          (let p2 = advance d p
           in Some (setSubmitButtonState False
                (case response of
                   Success m result \<Rightarrow> form_reset (showMessage thanks_message MSuccess p2)
                 | Failure m \<Rightarrow>
                     showMessage (if m \<noteq> [] then m else fallback_message) MError p2))))"

definition submit :: "(nat \<Rightarrow> string) \<Rightarrow> fetch_outcome \<Rightarrow> page \<Rightarrow> page option" where
  "submit toISOString outcome p =
     (case submit_begin toISOString p of
        Concluded p' \<Rightarrow> Some p'
      | InFlight p' \<Rightarrow> submit_resume outcome p')"

text \<open>
  A session of the page: submissions, each with what the network does to it, edits of
  the form between them, and time passing.
\<close>

datatype event = Submit fetch_outcome | Edit "(string \<times> entry_value) list" | Wait nat

fun run :: "(nat \<Rightarrow> string) \<Rightarrow> event list \<Rightarrow> page \<Rightarrow> page option" where
  "run toISOString [] p = Some p"
| "run toISOString (Submit outcome # evs) p =
     (case submit toISOString outcome p of
        None \<Rightarrow> None
      | Some p' \<Rightarrow> run toISOString evs p')"
| "run toISOString (Edit entries # evs) p = run toISOString evs (p\<lparr>form_values := entries\<rparr>)"
| "run toISOString (Wait dt # evs) p = run toISOString evs (advance dt p)"

subsection \<open>Helpers for stating the properties, and example inputs\<close>

text \<open>The text of the last entry of the form named \<open>k\<close>, before trimming.\<close>

definition entry_text :: "(string \<times> entry_value) list \<Rightarrow> string \<Rightarrow> string option" where
  "entry_text form k =
     (case map_of (rev form) k of Some (Text v) \<Rightarrow> Some v | Some File \<Rightarrow> None | None \<Rightarrow> None)"

text \<open>The fetch promise is still pending \<open>t\<close> milliseconds after the request.\<close>

fun unsettled_at :: "nat \<Rightarrow> fetch_outcome \<Rightarrow> bool" where
  "unsettled_at t (FetchResolves d r) = (t \<le> d)"
| "unsettled_at t (FetchRejects d e) = (t \<le> d)"
| "unsettled_at t FetchPending = True"

definition empty_form :: "(string \<times> entry_value) list" where
  "empty_form =
     [(''firstName'', Text []), (''lastName'', Text []), (''email'', Text []),
      (''company'', Text []), (''phone'', Text []), (''service'', Text []),
      (''message'', Text [])]"

definition example_form :: "(string \<times> entry_value) list" where
  "example_form =
     [(''firstName'', Text '' Ada ''), (''lastName'', Text ''Lovelace''),
      (''email'', Text ''ada@example.org''), (''company'', Text []),
      (''service'', Text ''web''), (''message'', Text ''Hello''),
      (''privacy'', Text ''on'')]"

definition example_data :: form_data where
  "example_data =
     [''firstName'' \<mapsto> ''Ada'', ''lastName'' \<mapsto> ''Lovelace'', ''email'' \<mapsto> ''ada@example.org'',
      ''company'' \<mapsto> [], ''service'' \<mapsto> ''web'', ''message'' \<mapsto> ''Hello'',
      ''privacy'' \<mapsto> ''on'']"

definition example_page :: page where
  "example_page =
     \<lparr>btn_disabled = False, btn_classes = [], submit_text = ''Send Message'',
      msg_classes = [''hidden''], msg_text = [],
      form_values = example_form, form_defaults = empty_form,
      requests = [], timers = [], clock = 0\<rparr>"

definition ok_outcome :: fetch_outcome where
  "ok_outcome = FetchResolves 120 (Response 200 (JsonResolves 3 (JObj [(''message'', JStr ''ok'')])))"

section \<open>Properties\<close>

subsection \<open>Fields of the page under the operations\<close>

lemma setSubmitButtonState_fields [simp]:
  "msg_text (setSubmitButtonState b p) = msg_text p"
  "msg_classes (setSubmitButtonState b p) = msg_classes p"
  "form_values (setSubmitButtonState b p) = form_values p"
  "form_defaults (setSubmitButtonState b p) = form_defaults p"
  "requests (setSubmitButtonState b p) = requests p"
  "timers (setSubmitButtonState b p) = timers p"
  "clock (setSubmitButtonState b p) = clock p"
  "btn_disabled (setSubmitButtonState b p) = b"
  "submit_text (setSubmitButtonState b p) = (if b then ''Sending...'' else ''Send Message'')"
  by (simp_all add: setSubmitButtonState_def)

lemma showMessage_fields [simp]:
  "msg_text (showMessage m ty p) = m"
  "msg_classes (showMessage m ty p) = class_remove ''hidden'' (class_tokens (messageClasses ty))"
  "form_values (showMessage m ty p) = form_values p"
  "form_defaults (showMessage m ty p) = form_defaults p"
  "requests (showMessage m ty p) = requests p"
  "timers (showMessage m MError p) = timers p"
  "timers (showMessage m MSuccess p) = timers p @ [clock p + AUTO_HIDE_DELAY]"
  "clock (showMessage m ty p) = clock p"
  "btn_disabled (showMessage m ty p) = btn_disabled p"
  "btn_classes (showMessage m ty p) = btn_classes p"
  "submit_text (showMessage m ty p) = submit_text p"
  by (simp_all add: showMessage_def)

lemma hideMessage_fields [simp]:
  "msg_text (hideMessage p) = msg_text p"
  "form_values (hideMessage p) = form_values p"
  "form_defaults (hideMessage p) = form_defaults p"
  "requests (hideMessage p) = requests p"
  "timers (hideMessage p) = timers p"
  "clock (hideMessage p) = clock p"
  "btn_disabled (hideMessage p) = btn_disabled p"
  "btn_classes (hideMessage p) = btn_classes p"
  "submit_text (hideMessage p) = submit_text p"
  by (simp_all add: hideMessage_def)

lemma form_reset_fields [simp]:
  "msg_text (form_reset p) = msg_text p"
  "msg_classes (form_reset p) = msg_classes p"
  "form_values (form_reset p) = form_defaults p"
  "form_defaults (form_reset p) = form_defaults p"
  "requests (form_reset p) = requests p"
  "timers (form_reset p) = timers p"
  "clock (form_reset p) = clock p"
  "btn_disabled (form_reset p) = btn_disabled p"
  "btn_classes (form_reset p) = btn_classes p"
  "submit_text (form_reset p) = submit_text p"
  by (simp_all add: form_reset_def)

lemma hide_all_fields:
  "msg_text (fold (\<lambda>_. hideMessage) ds p) = msg_text p \<and>
   form_values (fold (\<lambda>_. hideMessage) ds p) = form_values p \<and>
   form_defaults (fold (\<lambda>_. hideMessage) ds p) = form_defaults p \<and>
   requests (fold (\<lambda>_. hideMessage) ds p) = requests p \<and>
   timers (fold (\<lambda>_. hideMessage) ds p) = timers p \<and>
   clock (fold (\<lambda>_. hideMessage) ds p) = clock p \<and>
   btn_disabled (fold (\<lambda>_. hideMessage) ds p) = btn_disabled p \<and>
   btn_classes (fold (\<lambda>_. hideMessage) ds p) = btn_classes p \<and>
   submit_text (fold (\<lambda>_. hideMessage) ds p) = submit_text p"
  by (induction ds arbitrary: p) simp_all

lemma advance_fields [simp]:
  "msg_text (advance dt p) = msg_text p"
  "form_values (advance dt p) = form_values p"
  "form_defaults (advance dt p) = form_defaults p"
  "requests (advance dt p) = requests p"
  "clock (advance dt p) = clock p + dt"
  "btn_disabled (advance dt p) = btn_disabled p"
  "btn_classes (advance dt p) = btn_classes p"
  "submit_text (advance dt p) = submit_text p"
  by (simp_all add: advance_def Let_def hide_all_fields)

lemma banner_visible_showMessage [simp]: "banner_visible (showMessage m ty p)"
  by (simp add: banner_visible_def class_remove_def)

lemma banner_visible_button [simp]:
  "banner_visible (setSubmitButtonState b p) = banner_visible p"
  by (simp add: banner_visible_def)

lemma banner_visible_reset [simp]: "banner_visible (form_reset p) = banner_visible p"
  by (simp add: banner_visible_def)

lemma not_visible_hideMessage [simp]: "\<not> banner_visible (hideMessage p)"
  by (simp add: banner_visible_def hideMessage_def class_add_def)

lemma button_classes_normal:
  "''opacity-50'' \<notin> set (btn_classes (setSubmitButtonState False p)) \<and>
   ''cursor-not-allowed'' \<notin> set (btn_classes (setSubmitButtonState False p))"
  by (simp add: setSubmitButtonState_def class_remove_def)

lemma button_classes_loading:
  "''opacity-50'' \<in> set (btn_classes (setSubmitButtonState True p)) \<and>
   ''cursor-not-allowed'' \<in> set (btn_classes (setSubmitButtonState True p))"
  by (simp add: setSubmitButtonState_def class_add_def)

lemma field_blank_iff: "field_blank data f \<longleftrightarrow> (data f = None \<or> data f = Some [])"
  by (cases "data f") (simp_all add: field_blank_def)

lemma list_ex_blank_iff:
  "list_ex (field_blank data) required \<longleftrightarrow> (\<exists>f\<in>set required. data f = None \<or> data f = Some [])"
  by (simp add: list_ex_iff field_blank_iff)

lemma validate_blank: "\<exists>f\<in>set required. data f = None \<or> data f = Some [] \<Longrightarrow> \<not> validateFormData data"
  by (simp add: validateFormData_def list_ex_blank_iff)

lemma submit_begin_invalid:
  assumes "collectFormData (form_values p) = Inr data" and "\<not> validateFormData data"
  shows "submit_begin toISO p =
     Concluded (setSubmitButtonState False (showMessage validation_message MError
        (hideMessage (setSubmitButtonState True p))))"
  using assms by (simp add: submit_begin_def Let_def)

lemma submit_begin_valid:
  assumes "collectFormData (form_values p) = Inr data" and "validateFormData data"
  shows "submit_begin toISO p =
     InFlight ((hideMessage (setSubmitButtonState True p))
        \<lparr>requests := requests p @ [make_request toISO (clock p) data]\<rparr>)"
  using assms by (simp add: submit_begin_def Let_def)

lemma submit_begin_throw:
  assumes "collectFormData (form_values p) = Inl e"
  shows "submit_begin toISO p =
     Concluded (setSubmitButtonState False (showMessage handler_catch_message MError
        (hideMessage (setSubmitButtonState True p))))"
  using assms by (simp add: submit_begin_def Let_def)

subsection \<open>Example inputs evaluated\<close>

lemma example_collect: "collectFormData example_form = Inr example_data"
  by (simp add: collectFormData_def example_form_def example_data_def trim_def is_js_space_def)

lemma example_valid: "validateFormData example_data"
  by (simp add: validateFormData_def required_def field_blank_def example_data_def to_str_def
      emailRegex_test_def emailRegex_def is_js_space_def)

lemma empty_collect:
  "collectFormData empty_form =
     Inr [''firstName'' \<mapsto> [], ''lastName'' \<mapsto> [], ''email'' \<mapsto> [],
          ''company'' \<mapsto> [], ''phone'' \<mapsto> [], ''service'' \<mapsto> [], ''message'' \<mapsto> []]"
  by (simp add: collectFormData_def empty_form_def trim_def)

subsection \<open>Validation failures\<close>

text \<open>
  C1. When the collected form data lacks one of the required fields firstName, lastName,
  email, message or privacy, or holds it empty, the handler concludes before its
  \<^verbatim>\<open>await\<close>: it shows the one message "Please fill in all required fields correctly."
  as an error banner, issues no request whatever the network would do, and leaves the
  form as it is.
\<close>

theorem missing_required_field_rejected:
  assumes "collectFormData (form_values p) = Inr data"
    and "\<exists>f\<in>set required. data f = None \<or> data f = Some []"
  shows "\<exists>p'. submit toISO outcome p = Some p' \<and>
           submit_begin toISO p = Concluded p' \<and>
           msg_text p' = ''Please fill in all required fields correctly.'' \<and>
           msg_classes p' = class_tokens (messageClasses MError) \<and>
           banner_visible p' \<and>
           requests p' = requests p \<and>
           form_values p' = form_values p"
proof -
  from assms(2) have "\<not> validateFormData data"
    by (rule validate_blank)
  with assms(1) have "submit_begin toISO p =
     Concluded (setSubmitButtonState False (showMessage validation_message MError
        (hideMessage (setSubmitButtonState True p))))"
    by (rule submit_begin_invalid)
  moreover have "class_remove ''hidden'' (class_tokens (messageClasses MError)) =
      class_tokens (messageClasses MError)"
    by (simp add: class_remove_def class_tokens_def)
  ultimately show ?thesis
    by (simp add: submit_def validation_message_def)
qed

theorem missing_required_field_rejected_witness:
  "\<exists>p'. submit string_of_nat ok_outcome (example_page\<lparr>form_values := empty_form\<rparr>) = Some p' \<and>
        msg_text p' = ''Please fill in all required fields correctly.'' \<and>
        banner_visible p' \<and> requests p' = []"
proof -
  let ?p = "example_page\<lparr>form_values := empty_form\<rparr>"
  let ?d = "[''firstName'' \<mapsto> [], ''lastName'' \<mapsto> [], ''email'' \<mapsto> [],
      ''company'' \<mapsto> [], ''phone'' \<mapsto> [], ''service'' \<mapsto> [], ''message'' \<mapsto> []] :: form_data"
  have h1: "collectFormData (form_values ?p) = Inr ?d"
    by (simp add: empty_collect)
  have h2: "\<exists>f\<in>set required. ?d f = None \<or> ?d f = Some []"
    by (simp add: required_def)
  have "requests ?p = []"
    by (simp add: example_page_def)
  with missing_required_field_rejected [OF h1 h2, of string_of_nat ok_outcome]
  show ?thesis by auto
qed

subsection \<open>What the regular expression accepts\<close>

lemma match_plus_iff:
  "match_items (Plus a # r) s \<longleftrightarrow>
     (\<exists>u v. s = u @ v \<and> u \<noteq> [] \<and> (\<forall>c\<in>set u. atom_ok a c) \<and> match_items r v)"
proof (induction s)
  case Nil
  then show ?case by simp
next
  case (Cons c s)
  show ?case
  proof
    assume "match_items (Plus a # r) (c # s)"
    then have ok: "atom_ok a c" and alt: "match_items (Plus a # r) s \<or> match_items r s"
      by simp_all
    from alt show "\<exists>u v. c # s = u @ v \<and> u \<noteq> [] \<and> (\<forall>c\<in>set u. atom_ok a c) \<and> match_items r v"
    proof
      assume "match_items (Plus a # r) s"
      with Cons.IH obtain u v where "s = u @ v" "u \<noteq> []" "\<forall>c\<in>set u. atom_ok a c" "match_items r v"
        by blast
      with ok have "c # s = (c # u) @ v \<and> c # u \<noteq> [] \<and> (\<forall>x\<in>set (c # u). atom_ok a x) \<and> match_items r v"
        by simp
      then show ?thesis by blast
    next
      assume "match_items r s"
      with ok have "c # s = [c] @ s \<and> [c] \<noteq> [] \<and> (\<forall>x\<in>set [c]. atom_ok a x) \<and> match_items r s"
        by simp
      then show ?thesis by blast
    qed
  next
    assume "\<exists>u v. c # s = u @ v \<and> u \<noteq> [] \<and> (\<forall>c\<in>set u. atom_ok a c) \<and> match_items r v"
    then obtain u v where uv: "c # s = u @ v" "u \<noteq> []" "\<forall>c\<in>set u. atom_ok a c" "match_items r v"
      by blast
    then obtain u' where u: "u = c # u'" and s: "s = u' @ v"
      by (cases u) auto
    from uv u have ok: "atom_ok a c" by simp
    show "match_items (Plus a # r) (c # s)"
    proof (cases "u' = []")
      case True
      with s uv ok show ?thesis by simp
    next
      case False
      with uv u s have "\<exists>u v. s = u @ v \<and> u \<noteq> [] \<and> (\<forall>c\<in>set u. atom_ok a c) \<and> match_items r v"
        by auto
      with Cons.IH ok show ?thesis by simp
    qed
  qed
qed

lemma match_once_iff:
  "match_items (Once a # r) s \<longleftrightarrow> (\<exists>c v. s = c # v \<and> atom_ok a c \<and> match_items r v)"
  by (cases s) auto

lemma atom_ok_plain:
  "atom_ok (NegClass [CSpace, CChar CHR ''@'']) c \<longleftrightarrow> (\<not> is_js_space c \<and> c \<noteq> CHR ''@'')"
  by simp

lemma match_plusI:
  "u \<noteq> [] \<Longrightarrow> \<forall>c\<in>set u. atom_ok a c \<Longrightarrow> match_items r v \<Longrightarrow> match_items (Plus a # r) (u @ v)"
  unfolding match_plus_iff by blast

lemma match_plusD:
  "match_items (Plus a # r) s \<Longrightarrow>
     \<exists>u v. s = u @ v \<and> u \<noteq> [] \<and> (\<forall>c\<in>set u. atom_ok a c) \<and> match_items r v"
  unfolding match_plus_iff by blast

lemma match_onceD:
  "match_items (Once (Lit x) # r) s \<Longrightarrow> \<exists>v. s = x # v \<and> match_items r v"
  by (cases s) auto

lemma emailRegex_test_iff:
  "emailRegex_test s \<longleftrightarrow>
     (\<exists>l d t. s = l @ ''@'' @ d @ ''.'' @ t \<and> l \<noteq> [] \<and> d \<noteq> [] \<and> t \<noteq> [] \<and>
        (\<forall>c\<in>set (l @ d @ t). \<not> is_js_space c \<and> c \<noteq> CHR ''@''))"
    (is "?lhs \<longleftrightarrow> ?rhs")
proof
  let ?cls = "NegClass [CSpace, CChar CHR ''@'']"
  assume ?lhs
  then have "match_items (Plus ?cls # [Once (Lit CHR ''@''), Plus ?cls, Once (Lit CHR ''.''), Plus ?cls]) s"
    by (simp add: emailRegex_test_def emailRegex_def)
  from match_plusD [OF this]
  obtain l v1 where 1: "s = l @ v1" "l \<noteq> []" "\<forall>c\<in>set l. atom_ok ?cls c"
      and m1: "match_items (Once (Lit CHR ''@'') # [Plus ?cls, Once (Lit CHR ''.''), Plus ?cls]) v1"
    by blast
  from match_onceD [OF m1]
  obtain v2 where 2: "v1 = CHR ''@'' # v2"
      and m2: "match_items (Plus ?cls # [Once (Lit CHR ''.''), Plus ?cls]) v2"
    by blast
  from match_plusD [OF m2]
  obtain d v3 where 3: "v2 = d @ v3" "d \<noteq> []" "\<forall>c\<in>set d. atom_ok ?cls c"
      and m3: "match_items (Once (Lit CHR ''.'') # [Plus ?cls]) v3"
    by blast
  from match_onceD [OF m3]
  obtain v4 where 4: "v3 = CHR ''.'' # v4" and m4: "match_items (Plus ?cls # []) v4"
    by blast
  from match_plusD [OF m4]
  obtain t v5 where 5: "v4 = t @ v5" "t \<noteq> []" "\<forall>c\<in>set t. atom_ok ?cls c"
      and m5: "match_items [] v5"
    by blast
  from m5 have 6: "v5 = []" by simp
  have "s = l @ ''@'' @ d @ ''.'' @ t"
    by (simp add: 1 2 3 4 5 6)
  moreover from 1(3) 3(3) 5(3) have "\<forall>c\<in>set (l @ d @ t). \<not> is_js_space c \<and> c \<noteq> CHR ''@''"
    by (simp add: ball_Un)
  ultimately have "s = l @ ''@'' @ d @ ''.'' @ t \<and> l \<noteq> [] \<and> d \<noteq> [] \<and> t \<noteq> [] \<and>
        (\<forall>c\<in>set (l @ d @ t). \<not> is_js_space c \<and> c \<noteq> CHR ''@'')"
    using 1(2) 3(2) 5(2) by simp
  then show ?rhs by (intro exI)
next
  let ?cls = "NegClass [CSpace, CChar CHR ''@'']"
  assume ?rhs
  then obtain l d t where s: "s = l @ ''@'' @ d @ ''.'' @ t" and ne: "l \<noteq> []" "d \<noteq> []" "t \<noteq> []"
      and ok: "\<forall>c\<in>set (l @ d @ t). \<not> is_js_space c \<and> c \<noteq> CHR ''@''"
    by (elim exE conjE)
  from ok have okl: "\<forall>c\<in>set l. atom_ok ?cls c" and okd: "\<forall>c\<in>set d. atom_ok ?cls c"
    and okt: "\<forall>c\<in>set t. atom_ok ?cls c"
    by (simp_all add: ball_Un)
  have "match_items [] []" by simp
  from match_plusI [OF ne(3) okt this]
  have "match_items (Once (Lit CHR ''.'') # [Plus ?cls]) (CHR ''.'' # t)"
    by simp
  from match_plusI [OF ne(2) okd this]
  have "match_items (Once (Lit CHR ''@'') # [Plus ?cls, Once (Lit CHR ''.''), Plus ?cls])
          (CHR ''@'' # d @ CHR ''.'' # t)"
    by simp
  from match_plusI [OF ne(1) okl this]
  show ?lhs
    by (simp add: emailRegex_test_def emailRegex_def s)
qed


lemma validate_email:
  assumes "validateFormData data"
  shows "\<exists>e. data ''email'' = Some e \<and> emailRegex_test e"
proof -
  from assms have nb: "\<not> list_ex (field_blank data) required"
    and re: "emailRegex_test (to_str (data ''email''))"
    by (auto simp: validateFormData_def split: if_splits)
  from nb have "\<not> field_blank data ''email''"
    by (simp add: required_def)
  then obtain e where "data ''email'' = Some e"
    by (cases "data ''email''") (auto simp: field_blank_def)
  with re show ?thesis by (simp add: to_str_def)
qed

lemma validate_privacy: "validateFormData data \<Longrightarrow> data ''privacy'' = Some ''on''"
  by (auto simp: validateFormData_def split: if_splits)

text \<open>
  C4. An email without "@", or whose part after an "@" has no ".", fails validation.
  Data that pass validation hold an email of the shape local@domain.tld: three
  non-empty parts, none of which contains white space or "@".
\<close>

theorem invalid_email_fails:
  "(data ''email'' = Some e \<and>
      (CHR ''@'' \<notin> set e \<or> (\<exists>l d. e = l @ ''@'' @ d \<and> CHR ''.'' \<notin> set d))
      \<longrightarrow> \<not> validateFormData data) \<and>
   (validateFormData data \<longrightarrow>
      (\<exists>l d t. data ''email'' = Some (l @ ''@'' @ d @ ''.'' @ t) \<and>
         l \<noteq> [] \<and> d \<noteq> [] \<and> t \<noteq> [] \<and>
         (\<forall>c\<in>set (l @ d @ t). \<not> is_js_space c \<and> c \<noteq> CHR ''@'')))"
proof (intro conjI impI)
  assume v: "validateFormData data"
  from validate_email [OF v] obtain e' where e': "data ''email'' = Some e'" "emailRegex_test e'"
    by (elim exE conjE)
  from e'(2) obtain l d t where "e' = l @ ''@'' @ d @ ''.'' @ t \<and>
         l \<noteq> [] \<and> d \<noteq> [] \<and> t \<noteq> [] \<and>
         (\<forall>c\<in>set (l @ d @ t). \<not> is_js_space c \<and> c \<noteq> CHR ''@'')"
    unfolding emailRegex_test_iff by (elim exE)
  with e'(1) have "data ''email'' = Some (l @ ''@'' @ d @ ''.'' @ t) \<and>
         l \<noteq> [] \<and> d \<noteq> [] \<and> t \<noteq> [] \<and>
         (\<forall>c\<in>set (l @ d @ t). \<not> is_js_space c \<and> c \<noteq> CHR ''@'')"
    by simp
  then show "\<exists>l d t. data ''email'' = Some (l @ ''@'' @ d @ ''.'' @ t) \<and>
         l \<noteq> [] \<and> d \<noteq> [] \<and> t \<noteq> [] \<and>
         (\<forall>c\<in>set (l @ d @ t). \<not> is_js_space c \<and> c \<noteq> CHR ''@'')"
    by (intro exI)
next
  assume h: "data ''email'' = Some e \<and>
      (CHR ''@'' \<notin> set e \<or> (\<exists>l d. e = l @ ''@'' @ d \<and> CHR ''.'' \<notin> set d))"
  show "\<not> validateFormData data"
  proof
    assume v: "validateFormData data"
    from validate_email [OF v] h have "emailRegex_test e"
      by auto
    then obtain l d t where e: "e = l @ ''@'' @ d @ ''.'' @ t"
      and ok: "\<forall>c\<in>set (l @ d @ t). \<not> is_js_space c \<and> c \<noteq> CHR ''@''"
      unfolding emailRegex_test_iff by (elim exE conjE)
    from ok have noat: "CHR ''@'' \<notin> set l" "CHR ''@'' \<notin> set (d @ ''.'' @ t)"
      by auto
    from h have "CHR ''@'' \<notin> set e \<or> (\<exists>l d. e = l @ ''@'' @ d \<and> CHR ''.'' \<notin> set d)"
      by (rule conjunct2)
    then show False
    proof (elim disjE exE conjE)
      assume "CHR ''@'' \<notin> set e"
      with e show False by simp
    next
      fix l' d'
      assume e': "e = l' @ ''@'' @ d'" and nodot: "CHR ''.'' \<notin> set d'"
      from e e' have "l @ CHR ''@'' # (d @ ''.'' @ t) = l' @ CHR ''@'' # d'"
        by simp
      with noat have "d' = d @ ''.'' @ t"
        by (simp add: append_Cons_eq_iff)
      with nodot show False by simp
    qed
  qed
qed

theorem invalid_email_fails_witness:
  "\<not> validateFormData (example_data(''email'' \<mapsto> ''ada.example.org'')) \<and>
   \<not> validateFormData (example_data(''email'' \<mapsto> ''ada@example'')) \<and>
   (\<exists>l d t. example_data ''email'' = Some (l @ ''@'' @ d @ ''.'' @ t) \<and>
         l \<noteq> [] \<and> d \<noteq> [] \<and> t \<noteq> [] \<and>
         (\<forall>c\<in>set (l @ d @ t). \<not> is_js_space c \<and> c \<noteq> CHR ''@''))"
proof (intro conjI)
  have "CHR ''@'' \<notin> set ''ada.example.org''" by simp
  with invalid_email_fails [of "example_data(''email'' \<mapsto> ''ada.example.org'')" "''ada.example.org''"]
  show "\<not> validateFormData (example_data(''email'' \<mapsto> ''ada.example.org''))"
    by simp
next
  have "''ada@example'' = ''ada'' @ ''@'' @ ''example'' \<and> CHR ''.'' \<notin> set ''example''" by simp
  then have "\<exists>l d. ''ada@example'' = l @ ''@'' @ d \<and> CHR ''.'' \<notin> set d"
    by (intro exI)
  with invalid_email_fails [of "example_data(''email'' \<mapsto> ''ada@example'')" "''ada@example''"]
  show "\<not> validateFormData (example_data(''email'' \<mapsto> ''ada@example''))"
    by simp
next
  from invalid_email_fails [of example_data] example_valid
  show "\<exists>l d t. example_data ''email'' = Some (l @ ''@'' @ d @ ''.'' @ t) \<and>
         l \<noteq> [] \<and> d \<noteq> [] \<and> t \<noteq> [] \<and>
         (\<forall>c\<in>set (l @ d @ t). \<not> is_js_space c \<and> c \<noteq> CHR ''@'')"
    by simp
qed

text \<open>
  C10. Data that pass validation hold exactly "on" in the privacy field. When the
  collected privacy value is not empty and differs from "on", validation fails, the
  handler shows the validation message and issues no request.
\<close>

theorem privacy_must_be_on:
  "(validateFormData data \<longrightarrow> data ''privacy'' = Some ''on'') \<and>
   (collectFormData (form_values p) = Inr data \<and> data ''privacy'' = Some v \<and> v \<noteq> [] \<and> v \<noteq> ''on''
      \<longrightarrow> \<not> validateFormData data \<and>
          (\<exists>p'. submit toISO outcome p = Some p' \<and>
                msg_text p' = ''Please fill in all required fields correctly.'' \<and>
                banner_visible p' \<and>
                requests p' = requests p))"
proof (intro conjI impI)
  assume "validateFormData data"
  then show "data ''privacy'' = Some ''on''" by (rule validate_privacy)
next
  assume h: "collectFormData (form_values p) = Inr data \<and> data ''privacy'' = Some v \<and> v \<noteq> [] \<and> v \<noteq> ''on''"
  then have nv: "\<not> validateFormData data"
    using validate_privacy [of data] by auto
  then show "\<not> validateFormData data" .
  from h nv have "submit_begin toISO p =
     Concluded (setSubmitButtonState False (showMessage validation_message MError
        (hideMessage (setSubmitButtonState True p))))"
    by (simp add: submit_begin_invalid)
  then show "\<exists>p'. submit toISO outcome p = Some p' \<and>
                msg_text p' = ''Please fill in all required fields correctly.'' \<and>
                banner_visible p' \<and>
                requests p' = requests p"
    by (simp add: submit_def validation_message_def)
qed


theorem privacy_must_be_on_witness:
  "example_data ''privacy'' = Some ''on'' \<and>
   \<not> validateFormData (example_data(''privacy'' \<mapsto> ''yes'')) \<and>
   (\<exists>p'. submit string_of_nat ok_outcome
           (example_page\<lparr>form_values := example_form @ [(''privacy'', Text ''yes'')]\<rparr>) = Some p' \<and>
         msg_text p' = ''Please fill in all required fields correctly.'' \<and>
         banner_visible p' \<and> requests p' = [])"
proof -
  let ?p = "example_page\<lparr>form_values := example_form @ [(''privacy'', Text ''yes'')]\<rparr>"
  let ?d = "example_data(''privacy'' \<mapsto> ''yes'')"
  have h1: "collectFormData (form_values ?p) = Inr ?d"
    by (simp add: collectFormData_def example_form_def example_data_def trim_def is_js_space_def)
  have h2: "?d ''privacy'' = Some ''yes''"
    by simp
  have h3: "requests ?p = []"
    by (simp add: example_page_def)
  from privacy_must_be_on [of example_data] example_valid
  have "example_data ''privacy'' = Some ''on''"
    by simp
  moreover from privacy_must_be_on [of ?d ?p "''yes''" string_of_nat ok_outcome] h1 h2 h3
  have "\<not> validateFormData ?d \<and>
     (\<exists>p'. submit string_of_nat ok_outcome ?p = Some p' \<and>
         msg_text p' = ''Please fill in all required fields correctly.'' \<and>
         banner_visible p' \<and> requests p' = [])"
    by simp
  ultimately show ?thesis by simp
qed

subsection \<open>The payload\<close>

lemma collect_loop_no_file:
  "collect_loop es acc = Inr data \<Longrightarrow> (k, File) \<notin> set es"
  by (induction es acc rule: collect_loop.induct) auto

lemma collect_loop_lookup:
  "collect_loop es acc = Inr data \<Longrightarrow>
     data k = (case entry_text es k of Some v \<Rightarrow> Some (trim v) | None \<Rightarrow> acc k)"
proof (induction es acc rule: collect_loop.induct)
  case (1 data')
  then show ?case by (simp add: entry_text_def)
next
  case (2 key v es acc)
  from "2.prems" have run: "collect_loop es (acc(key \<mapsto> trim v)) = Inr data"
    by simp
  from "2.IH" [OF run]
  have ih: "data k = (case entry_text es k of Some w \<Rightarrow> Some (trim w) | None \<Rightarrow> (acc(key \<mapsto> trim v)) k)" .
  from collect_loop_no_file [OF run] have nf: "(k, File) \<notin> set es" .
  have nofile: "map_of (rev es) k \<noteq> Some File"
  proof
    assume "map_of (rev es) k = Some File"
    then have "(k, File) \<in> set (rev es)" by (rule map_of_SomeD)
    with nf show False by simp
  qed
  show ?case
  proof (cases "map_of (rev es) k")
    case None
    with ih show ?thesis
      by (simp add: entry_text_def map_add_def)
  next
    case (Some x)
    with nofile obtain w where "x = Text w"
      by (cases x) simp_all
    with Some ih show ?thesis
      by (simp add: entry_text_def map_add_def)
  qed
next
  case (3 key es acc)
  then show ?case by simp
qed

lemma collectFormData_lookup:
  "collectFormData form = Inr data \<Longrightarrow> data k = map_option trim (entry_text form k)"
  using collect_loop_lookup [of form Map.empty data k]
  by (cases "entry_text form k") (simp_all add: collectFormData_def)

lemma validate_present:
  assumes "validateFormData data" and "f \<in> set required"
  shows "\<exists>v. data f = Some v \<and> v \<noteq> []"
proof -
  from assms(1) have "\<not> list_ex (field_blank data) required"
    by (auto simp: validateFormData_def split: if_splits)
  with assms(2) have "\<not> field_blank data f"
    by (simp add: list_ex_iff)
  then show ?thesis
    by (cases "data f") (simp_all add: field_blank_def)
qed

lemma or_empty_trim:
  "or_empty (map_option trim v) = (case v of None \<Rightarrow> [] | Some c \<Rightarrow> trim c)"
  by (cases v) (simp_all add: or_empty_def)

lemma string_of_nat_500: "string_of_nat 500 = ''500''"
  by code_simp

text \<open>
  C5. When the collected data pass validation, the handler issues one POST request to
  the base URL followed by the contact path. The members of its JSON body are exactly:
  firstName, lastName, email and message, each the trimmed text of the form's entry of
  that name; company, phone and service, the trimmed text of the entry or the empty
  string when the form has no such entry; timestamp, the clock reading at submission as
  rendered by the platform; and source, "website_contact_form".
\<close>

theorem payload_fields:
  assumes "collectFormData (form_values p) = Inr data" and "validateFormData data"
  shows "\<exists>p' fn ln em msg.
           entry_text (form_values p) ''firstName'' = Some fn \<and>
           entry_text (form_values p) ''lastName'' = Some ln \<and>
           entry_text (form_values p) ''email'' = Some em \<and>
           entry_text (form_values p) ''message'' = Some msg \<and>
           submit_begin toISO p = InFlight p' \<and>
           requests p' = requests p @
             [\<lparr>url = ''http://localhost:8080/api/contact'',
               http_method = ''POST'',
               headers = [(''Content-Type'', ''application/json''), (''Accept'', ''application/json'')],
               body =
                 [(''firstName'', trim fn),
                  (''lastName'', trim ln),
                  (''email'', trim em),
                  (''company'', case entry_text (form_values p) ''company'' of None \<Rightarrow> [] | Some c \<Rightarrow> trim c),
                  (''phone'', case entry_text (form_values p) ''phone'' of None \<Rightarrow> [] | Some c \<Rightarrow> trim c),
                  (''service'', case entry_text (form_values p) ''service'' of None \<Rightarrow> [] | Some c \<Rightarrow> trim c),
                  (''message'', trim msg),
                  (''timestamp'', toISO (clock p)),
                  (''source'', ''website_contact_form'')],
               mode = ''cors''\<rparr>]"
proof -
  note look = collectFormData_lookup [OF assms(1)]
  from validate_present [OF assms(2), of "''firstName''"] obtain fn where fn: "entry_text (form_values p) ''firstName'' = Some fn"
    by (auto simp: required_def look)
  from validate_present [OF assms(2), of "''lastName''"] obtain ln where ln: "entry_text (form_values p) ''lastName'' = Some ln"
    by (auto simp: required_def look)
  from validate_present [OF assms(2), of "''email''"] obtain em where em: "entry_text (form_values p) ''email'' = Some em"
    by (auto simp: required_def look)
  from validate_present [OF assms(2), of "''message''"] obtain msg where msg: "entry_text (form_values p) ''message'' = Some msg"
    by (auto simp: required_def look)
  have "make_request toISO (clock p) data =
      \<lparr>url = ''http://localhost:8080/api/contact'',
               http_method = ''POST'',
               headers = [(''Content-Type'', ''application/json''), (''Accept'', ''application/json'')],
               body =
                 [(''firstName'', trim fn),
                  (''lastName'', trim ln),
                  (''email'', trim em),
                  (''company'', case entry_text (form_values p) ''company'' of None \<Rightarrow> [] | Some c \<Rightarrow> trim c),
                  (''phone'', case entry_text (form_values p) ''phone'' of None \<Rightarrow> [] | Some c \<Rightarrow> trim c),
                  (''service'', case entry_text (form_values p) ''service'' of None \<Rightarrow> [] | Some c \<Rightarrow> trim c),
                  (''message'', trim msg),
                  (''timestamp'', toISO (clock p)),
                  (''source'', ''website_contact_form'')],
               mode = ''cors''\<rparr>"
    by (simp add: make_request_def make_payload_def look fn ln em msg or_empty_trim
        API_BASE_URL_def CONTACT_ENDPOINT_def CORS_MODE_def)
  with submit_begin_valid [OF assms, of toISO] fn ln em msg
  show ?thesis by simp
qed

theorem payload_fields_witness:
  "\<exists>p'. submit_begin string_of_nat example_page = InFlight p' \<and>
     map body (requests p') =
       [[(''firstName'', ''Ada''), (''lastName'', ''Lovelace''), (''email'', ''ada@example.org''),
         (''company'', []), (''phone'', []), (''service'', ''web''), (''message'', ''Hello''),
         (''timestamp'', ''0''), (''source'', ''website_contact_form'')]]"
proof -
  have h1: "collectFormData (form_values example_page) = Inr example_data"
    by (simp add: example_page_def example_collect)
  have e: "entry_text (form_values example_page) ''firstName'' = Some '' Ada ''"
    "entry_text (form_values example_page) ''lastName'' = Some ''Lovelace''"
    "entry_text (form_values example_page) ''email'' = Some ''ada@example.org''"
    "entry_text (form_values example_page) ''message'' = Some ''Hello''"
    "entry_text (form_values example_page) ''company'' = Some []"
    "entry_text (form_values example_page) ''phone'' = None"
    "entry_text (form_values example_page) ''service'' = Some ''web''"
    by (simp_all add: example_page_def example_form_def entry_text_def)
  have t: "trim '' Ada '' = ''Ada''" "trim ''Lovelace'' = ''Lovelace''" "trim ''ada@example.org'' = ''ada@example.org''"
    "trim ''Hello'' = ''Hello''" "trim [] = []" "trim ''web'' = ''web''"
    by (simp_all add: trim_def is_js_space_def)
  have c: "requests example_page = []" "clock example_page = 0"
    by (simp_all add: example_page_def)
  have z: "string_of_nat 0 = ''0''"
    by code_simp
  from payload_fields [OF h1 example_valid, of string_of_nat]
  show ?thesis
    by (auto simp: e t c z)
qed

subsection \<open>The outcome of the request\<close>

lemma race_unsettled:
  "unsettled_at REQUEST_TIMEOUT outcome \<Longrightarrow> race outcome = (REQUEST_TIMEOUT, Inl timeout_error)"
  by (cases outcome) auto

lemma catch_send_timeout: "catch_send timeout_error = Failure timeout_message"
  by (simp add: catch_send_def timeout_error_def)

lemma settle_unsettled:
  "unsettled_at REQUEST_TIMEOUT outcome \<Longrightarrow>
     sendContactForm_settle outcome = Some (REQUEST_TIMEOUT, Failure timeout_message)"
  by (simp add: sendContactForm_settle_def try_send_def race_unsettled catch_send_timeout)

lemma settle_not_ok:
  "d < REQUEST_TIMEOUT \<Longrightarrow> \<not> response_ok r \<Longrightarrow>
     sendContactForm_settle (FetchResolves d r) = Some (d, Failure unexpected_message)"
  by (simp add: sendContactForm_settle_def try_send_def catch_send_def)

lemma messages_nonempty:
  "timeout_message \<noteq> []" "unexpected_message \<noteq> []" "network_message \<noteq> []"
  by (simp_all add: timeout_message_def unexpected_message_def network_message_def)

lemma error_classes_visible:
  "class_remove ''hidden'' (class_tokens (messageClasses ty)) = class_tokens (messageClasses ty)"
  by (cases ty) (simp_all add: class_remove_def class_tokens_def)

lemma submit_failure:
  assumes "collectFormData (form_values p) = Inr data" and "validateFormData data"
    and "sendContactForm_settle outcome = Some (d, Failure m)" and "m \<noteq> []"
  shows "submit toISO outcome p =
     Some (setSubmitButtonState False (showMessage m MError
        (advance d ((hideMessage (setSubmitButtonState True p))
           \<lparr>requests := requests p @ [make_request toISO (clock p) data]\<rparr>))))"
  using assms(3,4)
  by (simp add: submit_def submit_begin_valid [OF assms(1,2)] submit_resume_def Let_def)

lemma submit_success:
  assumes "collectFormData (form_values p) = Inr data" and "validateFormData data"
    and "sendContactForm_settle outcome = Some (d, Success m j)"
  shows "submit toISO outcome p =
     Some (setSubmitButtonState False (form_reset (showMessage thanks_message MSuccess
        (advance d ((hideMessage (setSubmitButtonState True p))
           \<lparr>requests := requests p @ [make_request toISO (clock p) data]\<rparr>)))))"
  using assms(3)
  by (simp add: submit_def submit_begin_valid [OF assms(1,2)] submit_resume_def Let_def)

text \<open>
  C6. When the data pass validation and the fetch promise is still pending when the
  timer of \<open>REQUEST_TIMEOUT\<close> (10000) milliseconds fires, the attempt concludes at that
  moment as a timeout: the banner shows "Request timed out. Please try again." as an
  error, the submit button is enabled again with its normal label, and the form is
  left as it is. The request stays issued; nothing withdraws it.
\<close>

theorem timeout_failure:
  assumes "collectFormData (form_values p) = Inr data" and "validateFormData data"
    and "unsettled_at REQUEST_TIMEOUT outcome"
  shows "\<exists>p'. submit toISO outcome p = Some p' \<and>
           msg_text p' = ''Request timed out. Please try again.'' \<and>
           msg_classes p' = class_tokens (messageClasses MError) \<and>
           banner_visible p' \<and>
           \<not> btn_disabled p' \<and>
           submit_text p' = ''Send Message'' \<and>
           clock p' = clock p + 10000 \<and>
           requests p' = requests p @ [make_request toISO (clock p) data] \<and>
           form_values p' = form_values p"
  using submit_failure [OF assms(1,2) settle_unsettled [OF assms(3)] messages_nonempty(1), of toISO]
  by (simp add: error_classes_visible timeout_message_def REQUEST_TIMEOUT_def del: messageClasses.simps)

theorem timeout_failure_witness:
  "unsettled_at REQUEST_TIMEOUT FetchPending \<and>
   (\<exists>p'. submit string_of_nat FetchPending example_page = Some p' \<and>
           msg_text p' = ''Request timed out. Please try again.'' \<and>
           banner_visible p' \<and>
           \<not> btn_disabled p' \<and>
           submit_text p' = ''Send Message'' \<and>
           clock p' = 10000 \<and>
           length (requests p') = 1 \<and>
           form_values p' = example_form)"
proof -
  have h1: "collectFormData (form_values example_page) = Inr example_data"
    by (simp add: example_page_def example_collect)
  have h3: "unsettled_at REQUEST_TIMEOUT FetchPending"
    by simp
  have c: "requests example_page = []" "clock example_page = 0" "form_values example_page = example_form"
    by (simp_all add: example_page_def)
  from timeout_failure [OF h1 example_valid h3, of string_of_nat] h3
  show ?thesis
    by (auto simp: c)
qed

text \<open>
  C7. When the data pass validation and the endpoint answers before the timeout with a
  status outside 200..299, the banner shows the generic error "An unexpected error
  occurred. Please try again or contact us directly." and the form keeps its values.
\<close>

theorem server_error_generic:
  assumes "collectFormData (form_values p) = Inr data" and "validateFormData data"
    and "d < REQUEST_TIMEOUT" and "status r < 200 \<or> 299 < status r"
  shows "\<exists>p'. submit toISO (FetchResolves d r) p = Some p' \<and>
           msg_text p' = ''An unexpected error occurred. Please try again or contact us directly.'' \<and>
           msg_classes p' = class_tokens (messageClasses MError) \<and>
           banner_visible p' \<and>
           form_values p' = form_values p"
proof -
  from assms(4) have "\<not> response_ok r"
    by (auto simp: response_ok_def)
  from submit_failure [OF assms(1,2) settle_not_ok [OF assms(3) this] messages_nonempty(2), of toISO]
  show ?thesis
    by (simp add: error_classes_visible unexpected_message_def advance_def Let_def hide_all_fields
        del: messageClasses.simps)
qed

theorem server_error_generic_witness:
  "\<exists>p'. submit string_of_nat (FetchResolves 80 (Response 500 JsonPending)) example_page = Some p' \<and>
           msg_text p' = ''An unexpected error occurred. Please try again or contact us directly.'' \<and>
           banner_visible p' \<and>
           form_values p' = example_form"
proof -
  have h1: "collectFormData (form_values example_page) = Inr example_data"
    by (simp add: example_page_def example_collect)
  have h3: "(80::nat) < REQUEST_TIMEOUT"
    by (simp add: REQUEST_TIMEOUT_def)
  have h4: "status (Response 500 JsonPending) < 200 \<or> 299 < status (Response 500 JsonPending)"
    by simp
  have c: "form_values example_page = example_form"
    by (simp add: example_page_def)
  from server_error_generic [OF h1 example_valid h3 h4, of string_of_nat]
  show ?thesis
    by (auto simp: c)
qed

subsection \<open>The success banner\<close>

lemma settle_success:
  assumes "d < REQUEST_TIMEOUT" and "response_ok r" and "body_of r = JsonResolves bd result"
    and "result \<noteq> JNull"
  shows "sendContactForm_settle (FetchResolves d r) =
     Some (d + bd, Success
       (case get_message result of
          Inr (Some v) \<Rightarrow> if truthy v then v else JStr ''Message sent successfully''
        | Inr None \<Rightarrow> JStr ''Message sent successfully''
        | Inl e \<Rightarrow> JStr ''Message sent successfully'')
       result)"
  using assms
  by (cases result) (simp_all add: sendContactForm_settle_def try_send_def split: option.splits)

lemma ok_outcome_settle:
  "sendContactForm_settle (FetchResolves 120 (Response 200 (JsonResolves 3 (JObj [(''message'', JStr ''ok'')])))) =
     Some (123, Success (JStr ''ok'') (JObj [(''message'', JStr ''ok'')]))"
  by (simp add: sendContactForm_settle_def try_send_def REQUEST_TIMEOUT_def response_ok_def)

lemma example_page_collect: "collectFormData (form_values example_page) = Inr example_data"
  by (simp add: example_page_def example_collect)

text \<open>
  C2, as the claim states it, fails: with a valid form and an endpoint that answers
  200 with the body {message: "ok"}, the banner does not read "ok".
\<close>

theorem success_text_counterexample:
  "map_option msg_text
     (submit string_of_nat
        (FetchResolves 120 (Response 200 (JsonResolves 3 (JObj [(''message'', JStr ''ok'')]))))
        example_page) =
     Some ''Thank you for your message! We'll get back to you soon.'' \<and>
   map_option msg_text
     (submit string_of_nat
        (FetchResolves 120 (Response 200 (JsonResolves 3 (JObj [(''message'', JStr ''ok'')]))))
        example_page) \<noteq> Some ''ok''"
  by (simp add: submit_success [OF example_page_collect example_valid ok_outcome_settle]
      thanks_message_def)

text \<open>
  C2, amended. When the data pass validation and the endpoint answers before the
  timeout with a status in 200..299 and a JSON body other than null, the banner shows
  the fixed text "Thank you for your message! We'll get back to you soon." as a success
  and the form is reset. The message of the body is not rendered: it is only part of
  the value \<^verbatim>\<open>sendContactForm\<close> resolves with, which carries the body's message when
  it is present and truthy and "Message sent successfully" otherwise.
\<close>

theorem success_banner_fixed_text:
  assumes "collectFormData (form_values p) = Inr data" and "validateFormData data"
    and "d < REQUEST_TIMEOUT" and "200 \<le> status r \<and> status r \<le> 299"
    and "body_of r = JsonResolves bd result" and "result \<noteq> JNull"
  shows "\<exists>p'. submit toISO (FetchResolves d r) p = Some p' \<and>
           msg_text p' = ''Thank you for your message! We'll get back to you soon.'' \<and>
           msg_classes p' = class_tokens (messageClasses MSuccess) \<and>
           banner_visible p' \<and>
           form_values p' = form_defaults p \<and>
           sendContactForm_settle (FetchResolves d r) =
             Some (d + bd, Success
               (case get_message result of
                  Inr (Some v) \<Rightarrow> if truthy v then v else JStr ''Message sent successfully''
                | Inr None \<Rightarrow> JStr ''Message sent successfully''
                | Inl e \<Rightarrow> JStr ''Message sent successfully'')
               result)"
proof -
  from assms(4) have ok: "response_ok r"
    by (simp add: response_ok_def)
  note settle = settle_success [OF assms(3) ok assms(5,6)]
  from submit_success [OF assms(1,2) settle, of toISO] settle
  show ?thesis
    by (simp add: error_classes_visible thanks_message_def del: messageClasses.simps)
qed

theorem success_banner_fixed_text_witness:
  "\<exists>p'. submit string_of_nat ok_outcome example_page = Some p' \<and>
         msg_text p' = ''Thank you for your message! We'll get back to you soon.'' \<and>
         banner_visible p' \<and>
         form_values p' = empty_form \<and>
         map_option (message_of \<circ> snd) (sendContactForm_settle ok_outcome) = Some (JStr ''ok'')"
proof -
  have h3: "(120::nat) < REQUEST_TIMEOUT"
    by (simp add: REQUEST_TIMEOUT_def)
  let ?r = "Response 200 (JsonResolves 3 (JObj [(''message'', JStr ''ok'')]))"
  have h4: "200 \<le> status ?r \<and> status ?r \<le> 299"
    by simp
  have h5: "body_of ?r = JsonResolves 3 (JObj [(''message'', JStr ''ok'')])"
    by simp
  have h6: "JObj [(''message'', JStr ''ok'')] \<noteq> JNull"
    by simp
  have c: "form_defaults example_page = empty_form"
    by (simp add: example_page_def)
  from success_banner_fixed_text [OF example_page_collect example_valid h3 h4 h5 h6, of string_of_nat]
  show ?thesis
    by (auto simp: c ok_outcome_def)
qed

subsection \<open>The failure messages\<close>

lemma catch_send_cases:
  "catch_send e = Failure network_message \<or> catch_send e = Failure timeout_message \<or>
   catch_send e = Failure unexpected_message"
  by (simp add: catch_send_def)

lemma try_send_Inr:
  "try_send outcome = Some (d, Inr res) \<Longrightarrow> \<exists>m j. res = Success m j"
  by (auto simp: try_send_def split: prod.splits sum.splits if_splits body_outcome.splits)

lemma settle_failure_message:
  assumes "sendContactForm_settle outcome = Some (d, Failure m)"
  shows "m = network_message \<or> m = timeout_message \<or> m = unexpected_message"
proof (cases "try_send outcome")
  case None
  with assms show ?thesis
    by (simp add: sendContactForm_settle_def)
next
  case (Some x)
  obtain d' res where x: "x = (d', res)"
    by (cases x)
  show ?thesis
  proof (cases res)
    case (Inl e)
    with Some x assms have "catch_send e = Failure m"
      by (simp add: sendContactForm_settle_def)
    with catch_send_cases [of e] show ?thesis
      by auto
  next
    case (Inr r)
    with Some x assms have "try_send outcome = Some (d, Inr (Failure m))"
      by (simp add: sendContactForm_settle_def)
    from try_send_Inr [OF this] show ?thesis
      by simp
  qed
qed

lemma settle_network:
  assumes "d < REQUEST_TIMEOUT" and "err_name e = ''TypeError''" and "str_includes (err_message e) ''fetch''"
  shows "sendContactForm_settle (FetchRejects d e) = Some (d, Failure network_message)"
  using assms by (simp add: sendContactForm_settle_def try_send_def catch_send_def)

lemma settle_bad_body:
  assumes "d < REQUEST_TIMEOUT" and "response_ok r" and "body_of r = JsonRejects bd e"
    and "err_name e \<noteq> ''TypeError''" and "err_message e \<noteq> ''Request timeout''"
  shows "sendContactForm_settle (FetchResolves d r) = Some (d + bd, Failure unexpected_message)"
  using assms by (simp add: sendContactForm_settle_def try_send_def catch_send_def)

lemma submit_failure_text:
  assumes "collectFormData (form_values p) = Inr data" and "validateFormData data"
    and "sendContactForm_settle outcome = Some (d, Failure m)" and "m \<noteq> []"
  shows "map_option msg_text (submit toISO outcome p) = Some m"
  by (simp add: submit_failure [OF assms])

lemma submit_invalid_text:
  assumes "collectFormData (form_values p) = Inr data" and "\<not> validateFormData data"
  shows "map_option msg_text (submit toISO outcome p) = Some validation_message"
  by (simp add: submit_def submit_begin_invalid [OF assms])

text \<open>
  C3, as the claim states it, fails: a timeout and a response with status 500 are both
  failures other than a validation failure, and their banners differ.
\<close>

theorem failure_kinds_counterexample:
  "map_option msg_text (submit string_of_nat FetchPending example_page) =
     Some ''Request timed out. Please try again.'' \<and>
   map_option msg_text (submit string_of_nat (FetchResolves 80 (Response 500 JsonPending)) example_page) =
     Some ''An unexpected error occurred. Please try again or contact us directly.'' \<and>
   map_option msg_text (submit string_of_nat FetchPending example_page) \<noteq>
   map_option msg_text (submit string_of_nat (FetchResolves 80 (Response 500 JsonPending)) example_page)"
proof -
  have 1: "sendContactForm_settle FetchPending = Some (REQUEST_TIMEOUT, Failure timeout_message)"
    by (simp add: settle_unsettled)
  have 2: "sendContactForm_settle (FetchResolves 80 (Response 500 JsonPending)) = Some (80, Failure unexpected_message)"
    by (simp add: settle_not_ok REQUEST_TIMEOUT_def response_ok_def)
  show ?thesis
    by (simp add: submit_failure_text [OF example_page_collect example_valid 1 messages_nonempty(1)]
        submit_failure_text [OF example_page_collect example_valid 2 messages_nonempty(2)]
        timeout_message_def unexpected_message_def)
qed

text \<open>
  C3, amended. Every attempt that concludes leaves a visible banner. Each kind of
  failure has a message of its own: a validation failure "Please fill in all required
  fields correctly."; a timeout "Request timed out. Please try again."; a fetch rejected
  with a TypeError whose message contains "fetch" "Unable to connect to the server.
  Please check your internet connection or try again later."; a status outside 200..299
  or a body that fails to parse "An unexpected error occurred. Please try again or
  contact us directly.". A banner that is not the success text shows one of these four.
\<close>

theorem failure_messages:
  "collectFormData (form_values p) = Inr data \<longrightarrow>
     (\<not> validateFormData data \<longrightarrow>
        map_option msg_text (submit toISO outcome p) =
          Some ''Please fill in all required fields correctly.'') \<and>
     (validateFormData data \<and> unsettled_at REQUEST_TIMEOUT outcome \<longrightarrow>
        map_option msg_text (submit toISO outcome p) =
          Some ''Request timed out. Please try again.'') \<and>
     (validateFormData data \<and> d < REQUEST_TIMEOUT \<and>
      err_name e = ''TypeError'' \<and> str_includes (err_message e) ''fetch'' \<longrightarrow>
        map_option msg_text (submit toISO (FetchRejects d e) p) =
          Some ''Unable to connect to the server. Please check your internet connection or try again later.'') \<and>
     (validateFormData data \<and> d < REQUEST_TIMEOUT \<and> \<not> response_ok r \<longrightarrow>
        map_option msg_text (submit toISO (FetchResolves d r) p) =
          Some ''An unexpected error occurred. Please try again or contact us directly.'') \<and>
     (validateFormData data \<and> d < REQUEST_TIMEOUT \<and> response_ok r \<and> body_of r = JsonRejects bd e' \<and>
      err_name e' \<noteq> ''TypeError'' \<and> err_message e' \<noteq> ''Request timeout'' \<longrightarrow>
        map_option msg_text (submit toISO (FetchResolves d r) p) =
          Some ''An unexpected error occurred. Please try again or contact us directly.'') \<and>
     (\<forall>p'. submit toISO outcome p = Some p' \<longrightarrow>
        banner_visible p' \<and>
        (msg_text p' = ''Thank you for your message! We'll get back to you soon.'' \<or>
         msg_text p' \<in> {''Please fill in all required fields correctly.'',
                        ''Request timed out. Please try again.'',
                        ''Unable to connect to the server. Please check your internet connection or try again later.'',
                        ''An unexpected error occurred. Please try again or contact us directly.''}))"
proof (rule impI)
  assume c: "collectFormData (form_values p) = Inr data"
  have p1: "\<not> validateFormData data \<longrightarrow>
        map_option msg_text (submit toISO outcome p) =
          Some ''Please fill in all required fields correctly.''"
  proof (rule impI)
    assume "\<not> validateFormData data"
    from submit_invalid_text [OF c this, of toISO outcome]
    show "map_option msg_text (submit toISO outcome p) = Some ''Please fill in all required fields correctly.''"
      by (simp add: validation_message_def)
  qed
  have p2: "validateFormData data \<and> unsettled_at REQUEST_TIMEOUT outcome \<longrightarrow>
        map_option msg_text (submit toISO outcome p) =
          Some ''Request timed out. Please try again.''"
  proof (rule impI)
    assume h: "validateFormData data \<and> unsettled_at REQUEST_TIMEOUT outcome"
    then have v: "validateFormData data" and u: "unsettled_at REQUEST_TIMEOUT outcome"
      by simp_all
    from submit_failure_text [OF c v settle_unsettled [OF u] messages_nonempty(1), of toISO]
    show "map_option msg_text (submit toISO outcome p) = Some ''Request timed out. Please try again.''"
      by (simp add: timeout_message_def)
  qed
  have p3: "validateFormData data \<and> d < REQUEST_TIMEOUT \<and>
      err_name e = ''TypeError'' \<and> str_includes (err_message e) ''fetch'' \<longrightarrow>
        map_option msg_text (submit toISO (FetchRejects d e) p) =
          Some ''Unable to connect to the server. Please check your internet connection or try again later.''"
  proof (rule impI)
    assume h: "validateFormData data \<and> d < REQUEST_TIMEOUT \<and>
      err_name e = ''TypeError'' \<and> str_includes (err_message e) ''fetch''"
    then have v: "validateFormData data"
      and s: "sendContactForm_settle (FetchRejects d e) = Some (d, Failure network_message)"
      by (simp_all add: settle_network)
    from submit_failure_text [OF c v s messages_nonempty(3), of toISO]
    show "map_option msg_text (submit toISO (FetchRejects d e) p) =
          Some ''Unable to connect to the server. Please check your internet connection or try again later.''"
      by (simp add: network_message_def)
  qed
  have p4: "validateFormData data \<and> d < REQUEST_TIMEOUT \<and> \<not> response_ok r \<longrightarrow>
        map_option msg_text (submit toISO (FetchResolves d r) p) =
          Some ''An unexpected error occurred. Please try again or contact us directly.''"
  proof (rule impI)
    assume h: "validateFormData data \<and> d < REQUEST_TIMEOUT \<and> \<not> response_ok r"
    then have v: "validateFormData data"
      and s: "sendContactForm_settle (FetchResolves d r) = Some (d, Failure unexpected_message)"
      by (simp_all add: settle_not_ok)
    from submit_failure_text [OF c v s messages_nonempty(2), of toISO]
    show "map_option msg_text (submit toISO (FetchResolves d r) p) =
          Some ''An unexpected error occurred. Please try again or contact us directly.''"
      by (simp add: unexpected_message_def)
  qed
  have p5: "validateFormData data \<and> d < REQUEST_TIMEOUT \<and> response_ok r \<and> body_of r = JsonRejects bd e' \<and>
      err_name e' \<noteq> ''TypeError'' \<and> err_message e' \<noteq> ''Request timeout'' \<longrightarrow>
        map_option msg_text (submit toISO (FetchResolves d r) p) =
          Some ''An unexpected error occurred. Please try again or contact us directly.''"
  proof (rule impI)
    assume h: "validateFormData data \<and> d < REQUEST_TIMEOUT \<and> response_ok r \<and> body_of r = JsonRejects bd e' \<and>
      err_name e' \<noteq> ''TypeError'' \<and> err_message e' \<noteq> ''Request timeout''"
    then have v: "validateFormData data"
      and s: "sendContactForm_settle (FetchResolves d r) = Some (d + bd, Failure unexpected_message)"
      by (simp_all add: settle_bad_body)
    from submit_failure_text [OF c v s messages_nonempty(2), of toISO]
    show "map_option msg_text (submit toISO (FetchResolves d r) p) =
          Some ''An unexpected error occurred. Please try again or contact us directly.''"
      by (simp add: unexpected_message_def)
  qed
  have p6: "\<forall>p'. submit toISO outcome p = Some p' \<longrightarrow>
        banner_visible p' \<and>
        (msg_text p' = ''Thank you for your message! We'll get back to you soon.'' \<or>
         msg_text p' \<in> {''Please fill in all required fields correctly.'',
                        ''Request timed out. Please try again.'',
                        ''Unable to connect to the server. Please check your internet connection or try again later.'',
                        ''An unexpected error occurred. Please try again or contact us directly.''})"
  proof (intro allI impI)
    fix p'
    assume h: "submit toISO outcome p = Some p'"
    show "banner_visible p' \<and>
        (msg_text p' = ''Thank you for your message! We'll get back to you soon.'' \<or>
         msg_text p' \<in> {''Please fill in all required fields correctly.'',
                        ''Request timed out. Please try again.'',
                        ''Unable to connect to the server. Please check your internet connection or try again later.'',
                        ''An unexpected error occurred. Please try again or contact us directly.''})"
    proof (cases "validateFormData data")
      case False
      from h show ?thesis
        by (auto simp: submit_def submit_begin_invalid [OF c False] validation_message_def)
    next
      case True
      show ?thesis
      proof (cases "sendContactForm_settle outcome")
        case None
        with h show ?thesis
          by (simp add: submit_def submit_begin_valid [OF c True] submit_resume_def)
      next
        case (Some x)
        obtain d' res where x: "x = (d', res)"
          by (cases x)
        show ?thesis
        proof (cases res)
          case (Success m j)
          with Some x have "sendContactForm_settle outcome = Some (d', Success m j)"
            by simp
          from submit_success [OF c True this, of toISO] h show ?thesis
            by (auto simp: thanks_message_def)
        next
          case (Failure m)
          with Some x have s: "sendContactForm_settle outcome = Some (d', Failure m)"
            by simp
          from settle_failure_message [OF s]
          have m: "m = network_message \<or> m = timeout_message \<or> m = unexpected_message" .
          with messages_nonempty have "m \<noteq> []"
            by auto
          from submit_failure [OF c True s this, of toISO] h m show ?thesis
            by (auto simp: network_message_def timeout_message_def unexpected_message_def)
        qed
      qed
    qed
  qed
  show "(\<not> validateFormData data \<longrightarrow>
        map_option msg_text (submit toISO outcome p) =
          Some ''Please fill in all required fields correctly.'') \<and>
     (validateFormData data \<and> unsettled_at REQUEST_TIMEOUT outcome \<longrightarrow>
        map_option msg_text (submit toISO outcome p) =
          Some ''Request timed out. Please try again.'') \<and>
     (validateFormData data \<and> d < REQUEST_TIMEOUT \<and>
      err_name e = ''TypeError'' \<and> str_includes (err_message e) ''fetch'' \<longrightarrow>
        map_option msg_text (submit toISO (FetchRejects d e) p) =
          Some ''Unable to connect to the server. Please check your internet connection or try again later.'') \<and>
     (validateFormData data \<and> d < REQUEST_TIMEOUT \<and> \<not> response_ok r \<longrightarrow>
        map_option msg_text (submit toISO (FetchResolves d r) p) =
          Some ''An unexpected error occurred. Please try again or contact us directly.'') \<and>
     (validateFormData data \<and> d < REQUEST_TIMEOUT \<and> response_ok r \<and> body_of r = JsonRejects bd e' \<and>
      err_name e' \<noteq> ''TypeError'' \<and> err_message e' \<noteq> ''Request timeout'' \<longrightarrow>
        map_option msg_text (submit toISO (FetchResolves d r) p) =
          Some ''An unexpected error occurred. Please try again or contact us directly.'') \<and>
     (\<forall>p'. submit toISO outcome p = Some p' \<longrightarrow>
        banner_visible p' \<and>
        (msg_text p' = ''Thank you for your message! We'll get back to you soon.'' \<or>
         msg_text p' \<in> {''Please fill in all required fields correctly.'',
                        ''Request timed out. Please try again.'',
                        ''Unable to connect to the server. Please check your internet connection or try again later.'',
                        ''An unexpected error occurred. Please try again or contact us directly.''}))"
    using p1 p2 p3 p4 p5 p6 by (intro conjI)
qed


theorem failure_messages_witness:
  "map_option msg_text (submit string_of_nat ok_outcome (example_page\<lparr>form_values := empty_form\<rparr>)) =
     Some ''Please fill in all required fields correctly.'' \<and>
   map_option msg_text (submit string_of_nat FetchPending example_page) =
     Some ''Request timed out. Please try again.'' \<and>
   map_option msg_text
     (submit string_of_nat (FetchRejects 5 (JsError ''TypeError'' ''Failed to fetch'')) example_page) =
     Some ''Unable to connect to the server. Please check your internet connection or try again later.'' \<and>
   map_option msg_text (submit string_of_nat (FetchResolves 5 (Response 500 JsonPending)) example_page) =
     Some ''An unexpected error occurred. Please try again or contact us directly.'' \<and>
   map_option msg_text
     (submit string_of_nat
        (FetchResolves 5 (Response 200 (JsonRejects 1 (JsError ''SyntaxError'' ''Unexpected end of JSON input''))))
        example_page) =
     Some ''An unexpected error occurred. Please try again or contact us directly.'' \<and>
   map_option banner_visible (submit string_of_nat FetchPending example_page) = Some True"
proof -
  let ?d = "[''firstName'' \<mapsto> [], ''lastName'' \<mapsto> [], ''email'' \<mapsto> [],
      ''company'' \<mapsto> [], ''phone'' \<mapsto> [], ''service'' \<mapsto> [], ''message'' \<mapsto> []] :: form_data"
  let ?bad = "Response 200 (JsonRejects 1 (JsError ''SyntaxError'' ''Unexpected end of JSON input''))"
  have e1: "collectFormData (form_values (example_page\<lparr>form_values := empty_form\<rparr>)) = Inr ?d"
    by (simp add: empty_collect)
  have e2: "\<not> validateFormData ?d"
    by (rule validate_blank) (simp add: required_def)
  have t: "(5::nat) < REQUEST_TIMEOUT"
    by (simp add: REQUEST_TIMEOUT_def)
  have f: "str_includes ''Failed to fetch'' ''fetch''"
    by (simp add: starts_with_def)
  have n: "\<not> response_ok (Response 500 JsonPending)"
    by (simp add: response_ok_def)
  have b: "response_ok ?bad"
    by (simp add: response_ok_def)
  from failure_messages [where p = "example_page\<lparr>form_values := empty_form\<rparr>" and data = ?d
      and toISO = string_of_nat and outcome = ok_outcome] e1 e2
  have 1: "map_option msg_text (submit string_of_nat ok_outcome (example_page\<lparr>form_values := empty_form\<rparr>)) =
     Some ''Please fill in all required fields correctly.''"
    by simp
  from failure_messages [where p = example_page and data = example_data and toISO = string_of_nat
      and outcome = FetchPending and d = 5 and e = "JsError ''TypeError'' ''Failed to fetch''"
      and r = "Response 500 JsonPending"]
    example_page_collect example_valid t f n
  have 2: "map_option msg_text (submit string_of_nat FetchPending example_page) =
       Some ''Request timed out. Please try again.'' \<and>
     map_option msg_text
       (submit string_of_nat (FetchRejects 5 (JsError ''TypeError'' ''Failed to fetch'')) example_page) =
       Some ''Unable to connect to the server. Please check your internet connection or try again later.'' \<and>
     map_option msg_text (submit string_of_nat (FetchResolves 5 (Response 500 JsonPending)) example_page) =
       Some ''An unexpected error occurred. Please try again or contact us directly.'' \<and>
     (\<forall>p'. submit string_of_nat FetchPending example_page = Some p' \<longrightarrow> banner_visible p')"
    by (simp del: str_includes.simps)
  from failure_messages [where p = example_page and data = example_data and toISO = string_of_nat
      and d = 5 and r = ?bad and bd = 1 and e' = "JsError ''SyntaxError'' ''Unexpected end of JSON input''"]
    example_page_collect example_valid t b
  have 3: "map_option msg_text (submit string_of_nat (FetchResolves 5 ?bad) example_page) =
       Some ''An unexpected error occurred. Please try again or contact us directly.''"
    by simp
  from 2 have 4: "map_option banner_visible (submit string_of_nat FetchPending example_page) = Some True"
    by auto
  from 1 2 3 4 show ?thesis
    by (intro conjI) simp_all
qed

subsection \<open>The submit button\<close>

lemma submit_concludes:
  assumes "collectFormData (form_values p) = Inr data"
  shows "submit toISO outcome p = None \<longleftrightarrow>
     validateFormData data \<and> sendContactForm_settle outcome = None"
proof (cases "validateFormData data")
  case False
  then show ?thesis
    by (simp add: submit_def submit_begin_invalid [OF assms False])
next
  case True
  then show ?thesis
    by (auto simp: submit_def submit_begin_valid [OF assms True] submit_resume_def Let_def
        split: option.splits)
qed

lemma settle_None_iff:
  "sendContactForm_settle outcome = None \<longleftrightarrow>
     (\<exists>d r. outcome = FetchResolves d r \<and> d < REQUEST_TIMEOUT \<and> response_ok r \<and> body_of r = JsonPending)"
  by (cases outcome)
    (auto simp: sendContactForm_settle_def try_send_def
      split: option.splits sum.splits prod.splits if_splits body_outcome.splits)

lemma submit_button_normal:
  assumes "submit toISO outcome p = Some p'"
  shows "\<exists>q. p' = setSubmitButtonState False q"
proof (cases "submit_begin toISO p")
  case (Concluded q)
  with assms have "p' = q"
    by (simp add: submit_def)
  with Concluded show ?thesis
    by (auto simp: submit_begin_def Let_def split: sum.splits if_splits)
next
  case (InFlight q)
  with assms show ?thesis
    by (auto simp: submit_def submit_resume_def Let_def split: option.splits)
qed

lemma submit_begin_loading:
  assumes "submit_begin toISO p = InFlight q"
  shows "btn_disabled q \<and> submit_text q = ''Sending...'' \<and>
     ''opacity-50'' \<in> set (btn_classes q) \<and> ''cursor-not-allowed'' \<in> set (btn_classes q)"
  using assms button_classes_loading [of p]
  by (auto simp: submit_begin_def Let_def split: sum.splits if_splits)

text \<open>
  C8. While the attempt is in flight the submit button is disabled and its label reads
  "Sending...", however much time passes. Whenever the attempt concludes, by success,
  validation failure, network failure, timeout or a thrown error, the button is enabled,
  its label reads "Send Message" and the two loading classes are gone. The one attempt
  that never concludes is that of a response whose body never arrives.
\<close>

theorem button_state:
  "(submit_begin toISO p = InFlight q \<longrightarrow>
      btn_disabled q \<and> submit_text q = ''Sending...'' \<and>
      btn_disabled (advance dt q) \<and> submit_text (advance dt q) = ''Sending...'') \<and>
   (submit toISO outcome p = Some p' \<longrightarrow>
      \<not> btn_disabled p' \<and> submit_text p' = ''Send Message'' \<and>
      ''opacity-50'' \<notin> set (btn_classes p') \<and> ''cursor-not-allowed'' \<notin> set (btn_classes p')) \<and>
   (submit toISO outcome p = None \<longrightarrow>
      (\<exists>data d r. collectFormData (form_values p) = Inr data \<and> validateFormData data \<and>
         outcome = FetchResolves d r \<and> d < REQUEST_TIMEOUT \<and> response_ok r \<and>
         body_of r = JsonPending))"
proof (intro conjI impI)
  assume "submit_begin toISO p = InFlight q"
  from submit_begin_loading [OF this]
  show "btn_disabled q" "submit_text q = ''Sending...''"
    "btn_disabled (advance dt q)" "submit_text (advance dt q) = ''Sending...''"
    by simp_all
next
  assume "submit toISO outcome p = Some p'"
  from submit_button_normal [OF this] obtain q where q: "p' = setSubmitButtonState False q"
    by (elim exE)
  with button_classes_normal [of q]
  show "\<not> btn_disabled p'" "submit_text p' = ''Send Message''"
    "''opacity-50'' \<notin> set (btn_classes p')" "''cursor-not-allowed'' \<notin> set (btn_classes p')"
    by simp_all
next
  assume n: "submit toISO outcome p = None"
  show "\<exists>data d r. collectFormData (form_values p) = Inr data \<and> validateFormData data \<and>
         outcome = FetchResolves d r \<and> d < REQUEST_TIMEOUT \<and> response_ok r \<and>
         body_of r = JsonPending"
  proof (cases "collectFormData (form_values p)")
    case (Inl err)
    with n show ?thesis
      by (simp add: submit_def submit_begin_throw [OF Inl])
  next
    case (Inr data)
    from n submit_concludes [OF Inr, of toISO outcome]
    have v: "validateFormData data" and s: "sendContactForm_settle outcome = None"
      by simp_all
    from s obtain d r where "outcome = FetchResolves d r \<and> d < REQUEST_TIMEOUT \<and> response_ok r \<and> body_of r = JsonPending"
      unfolding settle_None_iff by (elim exE)
    with Inr v show ?thesis
      by simp
  qed
qed


theorem button_state_witness:
  "(\<exists>q. submit_begin string_of_nat example_page = InFlight q \<and>
        btn_disabled q \<and> submit_text q = ''Sending...'' \<and>
        btn_disabled (advance 500 q) \<and> submit_text (advance 500 q) = ''Sending...'') \<and>
   (\<exists>p'. submit string_of_nat FetchPending example_page = Some p' \<and>
        \<not> btn_disabled p' \<and> submit_text p' = ''Send Message'') \<and>
   (\<exists>p'. submit string_of_nat FetchPending (example_page\<lparr>form_values := [(''attachment'', File)]\<rparr>) = Some p' \<and>
        \<not> btn_disabled p' \<and> submit_text p' = ''Send Message'') \<and>
   submit string_of_nat (FetchResolves 5 (Response 200 JsonPending)) example_page = None"
proof -
  let ?q = "(hideMessage (setSubmitButtonState True example_page))
        \<lparr>requests := requests example_page @ [make_request string_of_nat (clock example_page) example_data]\<rparr>"
  have b: "submit_begin string_of_nat example_page = InFlight ?q"
    by (rule submit_begin_valid [OF example_page_collect example_valid])
  from button_state [where p = example_page and toISO = string_of_nat and q = ?q and dt = 500] b
  have 1: "\<exists>q. submit_begin string_of_nat example_page = InFlight q \<and>
        btn_disabled q \<and> submit_text q = ''Sending...'' \<and>
        btn_disabled (advance 500 q) \<and> submit_text (advance 500 q) = ''Sending...''"
    by simp
  have "sendContactForm_settle FetchPending = Some (REQUEST_TIMEOUT, Failure timeout_message)"
    by (simp add: settle_unsettled)
  from submit_failure [OF example_page_collect example_valid this messages_nonempty(1), of string_of_nat]
  obtain p1 where s1: "submit string_of_nat FetchPending example_page = Some p1"
    by simp
  with button_state [where p = example_page and toISO = string_of_nat and outcome = FetchPending and p' = p1]
  have 2: "\<exists>p'. submit string_of_nat FetchPending example_page = Some p' \<and>
        \<not> btn_disabled p' \<and> submit_text p' = ''Send Message''"
    by simp
  let ?f = "example_page\<lparr>form_values := [(''attachment'', File)]\<rparr>"
  have "collectFormData (form_values ?f) = Inl (JsError ''TypeError'' ''value.trim is not a function'')"
    by (simp add: collectFormData_def)
  from submit_begin_throw [OF this, of string_of_nat]
  obtain p2 where s2: "submit string_of_nat FetchPending ?f = Some p2"
    by (simp add: submit_def)
  with button_state [where p = ?f and toISO = string_of_nat and outcome = FetchPending and p' = p2]
  have 3: "\<exists>p'. submit string_of_nat FetchPending ?f = Some p' \<and>
        \<not> btn_disabled p' \<and> submit_text p' = ''Send Message''"
    by simp
  have "sendContactForm_settle (FetchResolves 5 (Response 200 JsonPending)) = None"
    by (simp add: settle_None_iff REQUEST_TIMEOUT_def response_ok_def)
  with submit_concludes [OF example_page_collect, of string_of_nat "FetchResolves 5 (Response 200 JsonPending)"]
    example_valid
  have 4: "submit string_of_nat (FetchResolves 5 (Response 200 JsonPending)) example_page = None"
    by simp
  from 1 2 3 4 show ?thesis
    by (intro conjI)
qed

subsection \<open>Auto-dismissal of the banner\<close>

text \<open>
  \<^verbatim>\<open>showMessage\<close> sets a timer for a success banner only, and the banner it shows is
  hidden when that timer fires. The callback of the timer is \<^verbatim>\<open>hideMessage\<close>, which
  hides whatever banner is shown at that moment.
\<close>

lemma hide_all_stays_hidden:
  "\<not> banner_visible p \<Longrightarrow> \<not> banner_visible (fold (\<lambda>_. hideMessage) ds p)"
  by (induction ds arbitrary: p) simp_all

lemma hide_all_hidden:
  "ds \<noteq> [] \<Longrightarrow> \<not> banner_visible (fold (\<lambda>_. hideMessage) ds p)"
  by (cases ds) (simp_all add: hide_all_stays_hidden)

lemma advance_due_hides:
  assumes "due \<in> set (timers p)" and "due \<le> clock p + dt"
  shows "\<not> banner_visible (advance dt p)"
proof -
  from assms have "filter (\<lambda>due. due \<le> clock p + dt) (timers p) \<noteq> []"
    by (auto simp: filter_empty_conv)
  then show ?thesis
    by (simp add: advance_def Let_def hide_all_hidden)
qed

lemma advance_none_due:
  assumes "\<forall>due\<in>set (timers p). clock p + dt < due"
  shows "banner_visible (advance dt p) = banner_visible p"
proof -
  from assms have "filter (\<lambda>due. due \<le> clock p + dt) (timers p) = []"
    by (auto simp: filter_empty_conv)
  then show ?thesis
    by (simp add: advance_def Let_def banner_visible_def)
qed

lemma success_banner_auto_hides:
  "\<not> banner_visible (advance AUTO_HIDE_DELAY (showMessage m MSuccess p))"
  by (rule advance_due_hides [where due = "clock p + AUTO_HIDE_DELAY"]) simp_all

lemma error_banner_stays_without_timers:
  "timers p = [] \<Longrightarrow> banner_visible (advance dt (showMessage m MError p))"
  by (simp add: advance_none_due)

lemma advance_timers:
  "timers (advance dt p) = filter (\<lambda>due. \<not> due \<le> clock p + dt) (timers p)"
  by (simp add: advance_def Let_def hide_all_fields)

lemma pending_timer_hides_error_banner:
  assumes "due \<in> set (timers p)" and "due \<le> clock p + dt"
  shows "\<not> banner_visible (advance dt (showMessage m MError p))"
  using assms by (intro advance_due_hides [where due = due]) simp_all

text \<open>
  C9. A success banner is hidden 5000 milliseconds after it is shown, and an error
  banner is to stay until the next submission hides it. The code breaks the second
  half: the timer of a success banner is never cleared. Here the first submission
  succeeds after 123 milliseconds and resets the form; one second later a second
  submission fails validation and shows its error banner at 1123 milliseconds; the
  timer of the first banner fires at 5123 milliseconds and hides the error banner,
  with no submission in between.
\<close>

theorem stale_timer_hides_error_banner:
  "map_option msg_text
     (run string_of_nat [Submit ok_outcome, Wait 1000, Submit FetchPending] example_page) =
     Some ''Please fill in all required fields correctly.'' \<and>
   map_option banner_visible
     (run string_of_nat [Submit ok_outcome, Wait 1000, Submit FetchPending] example_page) =
     Some True \<and>
   map_option clock
     (run string_of_nat [Submit ok_outcome, Wait 1000, Submit FetchPending] example_page) =
     Some 1123 \<and>
   map_option msg_text
     (run string_of_nat [Submit ok_outcome, Wait 1000, Submit FetchPending, Wait 4000] example_page) =
     Some ''Please fill in all required fields correctly.'' \<and>
   map_option banner_visible
     (run string_of_nat [Submit ok_outcome, Wait 1000, Submit FetchPending, Wait 4000] example_page) =
     Some False"
proof -
  let ?q = "(hideMessage (setSubmitButtonState True example_page))
      \<lparr>requests := requests example_page @ [make_request string_of_nat (clock example_page) example_data]\<rparr>"
  let ?p1 = "advance 1000
      (setSubmitButtonState False (form_reset (showMessage thanks_message MSuccess (advance 123 ?q))))"
  let ?p2 = "setSubmitButtonState False (showMessage validation_message MError
      (hideMessage (setSubmitButtonState True ?p1)))"
  let ?d = "[''firstName'' \<mapsto> [], ''lastName'' \<mapsto> [], ''email'' \<mapsto> [],
      ''company'' \<mapsto> [], ''phone'' \<mapsto> [], ''service'' \<mapsto> [], ''message'' \<mapsto> []] :: form_data"
  have s1: "submit string_of_nat ok_outcome example_page =
      Some (setSubmitButtonState False (form_reset (showMessage thanks_message MSuccess (advance 123 ?q))))"
    unfolding ok_outcome_def
    by (rule submit_success [OF example_page_collect example_valid ok_outcome_settle])
  have e: "form_defaults example_page = empty_form" "clock example_page = 0" "timers example_page = []"
    by (simp_all add: example_page_def)
  have f1: "form_values ?p1 = empty_form"
    by (simp add: e)
  have c2: "collectFormData (form_values ?p1) = Inr ?d"
    by (simp only: f1 empty_collect)
  have v2: "\<not> validateFormData ?d"
    by (rule validate_blank) (simp add: required_def)
  have s2: "submit string_of_nat FetchPending ?p1 = Some ?p2"
    by (simp add: submit_def submit_begin_invalid [OF c2 v2])
  have r2: "run string_of_nat [Submit ok_outcome, Wait 1000, Submit FetchPending] example_page = Some ?p2"
    by (simp add: s1 s2)
  have r3: "run string_of_nat [Submit ok_outcome, Wait 1000, Submit FetchPending, Wait 4000] example_page =
      Some (advance 4000 ?p2)"
    by (simp add: s1 s2)
  have f2: "clock ?p2 = 1123" "timers ?p2 = [5123]"
    by (simp_all add: advance_timers e AUTO_HIDE_DELAY_def)
  have m1: "msg_text ?p2 = ''Please fill in all required fields correctly.''"
    by (simp add: validation_message_def)
  have m2: "banner_visible ?p2 = True"
    by simp
  have m3: "msg_text (advance 4000 ?p2) = ''Please fill in all required fields correctly.''"
    by (simp add: validation_message_def)
  have "\<not> banner_visible (advance 4000 ?p2)"
    by (rule advance_due_hides [where due = 5123]) (simp_all only: f2, simp_all)
  then have m4: "banner_visible (advance 4000 ?p2) = False"
    by (rule eq_False [THEN iffD2])
  show ?thesis
    unfolding r2 r3 option.map m1 m2 m3 m4 f2
    by (intro conjI refl)
qed

end
